theory Spec2Isabelle
  imports Main "HOL-Library.Sublist" "HOL-Library.Word"
begin

section \<open>Strings: the library functions the parser calls\<close>

text \<open>
  A Go string is a sequence of bytes; \<^typ>\<open>string\<close> is a list of 8-bit characters, so
  one \<^typ>\<open>char\<close> is one byte and a code point beyond ASCII is its UTF-8 bytes.
\<close>

text \<open>\<^verbatim>\<open>strings.Split(s, "\n")\<close>: the pieces between the separators, all of them, so the
  empty string gives one empty piece.\<close>

fun Split :: "string \<Rightarrow> char \<Rightarrow> string list" where
  "Split [] sep = [[]]"
| "Split (c # cs) sep =
     (if c = sep then [] # Split cs sep
      else (case Split cs sep of [] \<Rightarrow> [[c]] | l # ls \<Rightarrow> (c # l) # ls))"

text \<open>\<^verbatim>\<open>strings.TrimRight(s, cutset)\<close> for a cutset of ASCII bytes.\<close>

definition TrimRight :: "string \<Rightarrow> string \<Rightarrow> string" where
  "TrimRight s cutset = rev (dropWhile (\<lambda>c. c \<in> set cutset) (rev s))"

text \<open>\<^verbatim>\<open>strings.Contains(s, substr)\<close>.\<close>

fun Contains :: "string \<Rightarrow> string \<Rightarrow> bool" where
  "Contains [] sub = (sub = [])"
| "Contains (c # cs) sub = (prefix sub (c # cs) \<or> Contains cs sub)"

text \<open>
  \<^verbatim>\<open>strings.TrimSpace\<close> removes the leading and the trailing white space as Unicode
  defines it (\<^verbatim>\<open>unicode.IsSpace\<close>). On the bytes of the string these are the six ASCII
  characters and the UTF-8 encodings of U+0085, U+00A0, U+1680, U+2000 to U+200A, U+2028,
  U+2029, U+202F, U+205F and U+3000; a byte sequence that is not a valid encoding decodes
  to U+FFFD, which is not white space.
\<close>

definition spaceRunes :: "string list" where
  "spaceRunes =
     [[CHR 0x09], [CHR 0x0A], [CHR 0x0B], [CHR 0x0C], [CHR 0x0D], [CHR 0x20],
      [CHR 0xC2, CHR 0x85], [CHR 0xC2, CHR 0xA0],
      [CHR 0xE1, CHR 0x9A, CHR 0x80],
      [CHR 0xE2, CHR 0x80, CHR 0x80], [CHR 0xE2, CHR 0x80, CHR 0x81],
      [CHR 0xE2, CHR 0x80, CHR 0x82], [CHR 0xE2, CHR 0x80, CHR 0x83],
      [CHR 0xE2, CHR 0x80, CHR 0x84], [CHR 0xE2, CHR 0x80, CHR 0x85],
      [CHR 0xE2, CHR 0x80, CHR 0x86], [CHR 0xE2, CHR 0x80, CHR 0x87],
      [CHR 0xE2, CHR 0x80, CHR 0x88], [CHR 0xE2, CHR 0x80, CHR 0x89],
      [CHR 0xE2, CHR 0x80, CHR 0x8A],
      [CHR 0xE2, CHR 0x80, CHR 0xA8], [CHR 0xE2, CHR 0x80, CHR 0xA9],
      [CHR 0xE2, CHR 0x80, CHR 0xAF], [CHR 0xE2, CHR 0x81, CHR 0x9F],
      [CHR 0xE3, CHR 0x80, CHR 0x80]]"

text \<open>The number of bytes of the white-space rune the string starts with, 0 when it
  starts with none.\<close>

definition spacePrefixLen :: "string \<Rightarrow> nat" where
  "spacePrefixLen s =
     (case filter (\<lambda>e. prefix e s) spaceRunes of [] \<Rightarrow> 0 | e # _ \<Rightarrow> length e)"

definition spaceSuffixLen :: "string \<Rightarrow> nat" where
  "spaceSuffixLen s =
     (case filter (\<lambda>e. suffix e s) spaceRunes of [] \<Rightarrow> 0 | e # _ \<Rightarrow> length e)"

function TrimLeftSpace :: "string \<Rightarrow> string" where
  "TrimLeftSpace s =
     (if s = [] \<or> spacePrefixLen s = 0 then s else TrimLeftSpace (drop (spacePrefixLen s) s))"
  by pat_completeness auto
termination
  by (relation "measure length") auto

function TrimRightSpace :: "string \<Rightarrow> string" where
  "TrimRightSpace s =
     (if s = [] \<or> spaceSuffixLen s = 0 then s
      else TrimRightSpace (take (length s - spaceSuffixLen s) s))"
  by pat_completeness auto
termination
  by (relation "measure length") auto

declare TrimLeftSpace.simps [simp del]
declare TrimRightSpace.simps [simp del]

definition TrimSpace :: "string \<Rightarrow> string" where
  "TrimSpace s = TrimRightSpace (TrimLeftSpace s)"

section \<open>Regular expressions\<close>

text \<open>
  The two patterns of the parser use literals, character classes repeated greedily
  (\<^verbatim>\<open>\s*\<close>, \<^verbatim>\<open>.+\<close>, \<^verbatim>\<open>\d+\<close>) or lazily (\<^verbatim>\<open>.+?\<close>), an optional group, capturing
  groups and the two anchors. Go's \<^verbatim>\<open>regexp\<close> returns the match a backtracking search
  finds first, starting as far left as possible; the matcher below lists the ways a
  pattern can match at a position in that order of preference.
\<close>

datatype regex =
    Lit string
  | Star "char \<Rightarrow> bool"
  | Plus "char \<Rightarrow> bool"
  | PlusLazy "char \<Rightarrow> bool"
  | Opt regex
  | Cat regex regex
  | Group nat regex
  | Bol
  | Eol

text \<open>The classes: \<^verbatim>\<open>\s\<close> is \<^verbatim>\<open>[\t\n\f\r ]\<close>, \<^verbatim>\<open>\d\<close> is \<^verbatim>\<open>[0-9]\<close>, and \<^verbatim>\<open>.\<close> is any
  character but the newline (a byte that decodes to no code point counts as one).\<close>

definition reSpace :: "char \<Rightarrow> bool" where
  "reSpace c = (c = CHR 0x09 \<or> c = CHR 0x0A \<or> c = CHR 0x0C \<or> c = CHR 0x0D \<or> c = CHR 0x20)"

definition reDigit :: "char \<Rightarrow> bool" where
  "reDigit c = (c \<in> set ''0123456789'')"

definition reDot :: "char \<Rightarrow> bool" where
  "reDot c = (c \<noteq> CHR 0x0A)"

text \<open>What is left of the input after a greedy or a lazy repetition of a class, the
  preferred outcome first.\<close>

fun starGreedy :: "(char \<Rightarrow> bool) \<Rightarrow> string \<Rightarrow> string list" where
  "starGreedy p [] = [[]]"
| "starGreedy p (c # cs) = (if p c then starGreedy p cs else []) @ [c # cs]"

fun starLazy :: "(char \<Rightarrow> bool) \<Rightarrow> string \<Rightarrow> string list" where
  "starLazy p [] = [[]]"
| "starLazy p (c # cs) = (c # cs) # (if p c then starLazy p cs else [])"

type_synonym captures = "nat \<rightharpoonup> string"

text \<open>\<open>matches r n (s, caps)\<close>: the text has \<open>n\<close> characters, \<open>s\<close> is what is left of it
  and \<open>caps\<close> the groups captured so far; the result lists what is left and captured
  after \<open>r\<close>, the preferred match first.\<close>

fun matches :: "regex \<Rightarrow> nat \<Rightarrow> string \<times> captures \<Rightarrow> (string \<times> captures) list" where
  "matches (Lit l) n (s, caps) = (if prefix l s then [(drop (length l) s, caps)] else [])"
| "matches (Star p) n (s, caps) = map (\<lambda>s'. (s', caps)) (starGreedy p s)"
| "matches (Plus p) n (s, caps) =
     (case s of [] \<Rightarrow> []
      | c # cs \<Rightarrow> if p c then map (\<lambda>s'. (s', caps)) (starGreedy p cs) else [])"
| "matches (PlusLazy p) n (s, caps) =
     (case s of [] \<Rightarrow> []
      | c # cs \<Rightarrow> if p c then map (\<lambda>s'. (s', caps)) (starLazy p cs) else [])"
| "matches (Opt r) n (s, caps) = matches r n (s, caps) @ [(s, caps)]"
| "matches (Cat r1 r2) n (s, caps) = concat (map (matches r2 n) (matches r1 n (s, caps)))"
| "matches (Group i r) n (s, caps) =
     map (\<lambda>(s', caps'). (s', caps'(i \<mapsto> take (length s - length s') s)))
       (matches r n (s, caps))"
| "matches Bol n (s, caps) = (if length s = n then [(s, caps)] else [])"
| "matches Eol n (s, caps) = (if s = [] then [(s, caps)] else [])"

fun numGroups :: "regex \<Rightarrow> nat" where
  "numGroups (Opt r) = numGroups r"
| "numGroups (Cat r1 r2) = numGroups r1 + numGroups r2"
| "numGroups (Group i r) = Suc (numGroups r)"
| "numGroups r = 0"

text \<open>The leftmost match: the first match at the first start position that has one.\<close>

fun findFrom :: "regex \<Rightarrow> nat \<Rightarrow> string \<Rightarrow> (string \<times> captures) option" where
  "findFrom r n [] =
     (case matches r n ([], Map.empty) of [] \<Rightarrow> None
      | (s', caps) # _ \<Rightarrow> Some ([], caps))"
| "findFrom r n (c # cs) =
     (case matches r n (c # cs, Map.empty) of
        [] \<Rightarrow> findFrom r n cs
      | (s', caps) # _ \<Rightarrow> Some (take (length (c # cs) - length s') (c # cs), caps))"

text \<open>\<^verbatim>\<open>re.FindStringSubmatch(s)\<close>: nil (the empty list) when there is no match, else the
  whole match followed by the text of each group, empty for a group that took no part.\<close>

definition FindStringSubmatch :: "regex \<Rightarrow> string \<Rightarrow> string list" where
  "FindStringSubmatch r s =
     (case findFrom r (length s) s of None \<Rightarrow> []
      | Some (whole, caps) \<Rightarrow>
          whole # map (\<lambda>i. case caps i of None \<Rightarrow> [] | Some g \<Rightarrow> g) [1..<Suc (numGroups r)])"

section \<open>The parser\<close>

record MoonProductData =
  Quantity :: string
  OreTypeID :: string
  SolarSystemID :: string
  PlanetID :: string
  MoonID :: string

type_synonym MoonProducts = "string \<rightharpoonup> (string \<rightharpoonup> MoonProductData)"

text \<open>\<^verbatim>\<open>^\s*(.+ - Moon \d+)\s*$\<close>\<close>

definition moonLineRe :: regex where
  "moonLineRe =
     Cat Bol (Cat (Star reSpace)
       (Cat (Group 1 (Cat (Plus reDot) (Cat (Lit '' - Moon '') (Plus reDigit))))
         (Cat (Star reSpace) Eol)))"

text \<open>\<^verbatim>\<open>^\s*(.+?)\s+([0-9]+(?:\.[0-9]+)?)\s+(\d+)\s+(\d+)\s+(\d+)\s+(\d+)\s*$\<close>\<close>

definition productLineRe :: regex where
  "productLineRe =
     Cat Bol (Cat (Star reSpace)
       (Cat (Group 1 (PlusLazy reDot)) (Cat (Plus reSpace)
         (Cat (Group 2 (Cat (Plus reDigit) (Opt (Cat (Lit ''.'') (Plus reDigit)))))
           (Cat (Plus reSpace)
             (Cat (Group 3 (Plus reDigit)) (Cat (Plus reSpace)
               (Cat (Group 4 (Plus reDigit)) (Cat (Plus reSpace)
                 (Cat (Group 5 (Plus reDigit)) (Cat (Plus reSpace)
                   (Cat (Group 6 (Plus reDigit)) (Cat (Star reSpace) Eol)))))))))))))"

text \<open>A write to a map that was never made panics in Go: the one way the parser could
  fail other than by its error result.\<close>

datatype panic = NilMapWrite

type_synonym pstate = "MoonProducts \<times> string"

text \<open>The body of the loop of \<^verbatim>\<open>ParseMoons\<close>, on the table and \<^verbatim>\<open>currentMoon\<close>.\<close>

definition parseLine :: "pstate \<Rightarrow> string \<Rightarrow> panic + pstate" where
  "parseLine st rawLine =
     (let result = fst st; currentMoon = snd st;
          line = TrimRight rawLine [CHR 0x0D];
          trimmed = TrimSpace line
      in if trimmed = [] then Inr st
         else if Contains trimmed ''Moon Product'' then Inr st
         else let m = FindStringSubmatch moonLineRe line in
           if length m = 2 then
             (let currentMoon = m ! 1 in
              Inr (if result currentMoon = None then result(currentMoon \<mapsto> Map.empty)
                   else result, currentMoon))
           else if currentMoon = [] then Inr st
           else let m = FindStringSubmatch productLineRe line in
             if length m = 7 then
               (let product = m ! 1 in
                case result currentMoon of
                  None \<Rightarrow> Inl NilMapWrite
                | Some inner \<Rightarrow>
                    Inr (result(currentMoon \<mapsto> inner(product \<mapsto>
                           \<lparr>Quantity = m ! 2, OreTypeID = m ! 3, SolarSystemID = m ! 4,
                            PlanetID = m ! 5, MoonID = m ! 6\<rparr>)), currentMoon))
             else Inr st)"

fun parseLines :: "pstate \<Rightarrow> string list \<Rightarrow> panic + pstate" where
  "parseLines st [] = Inr st"
| "parseLines st (l # ls) =
     (case parseLine st l of Inl e \<Rightarrow> Inl e | Inr st' \<Rightarrow> parseLines st' ls)"

text \<open>\<^verbatim>\<open>ParseMoons\<close> returns the table and an error, which is nil (\<open>None\<close>) at its only
  \<^verbatim>\<open>return\<close>.\<close>

definition ParseMoons :: "string \<Rightarrow> panic + (MoonProducts \<times> string option)" where
  "ParseMoons input =
     (case parseLines (Map.empty, []) (Split input (CHR 0x0A)) of
        Inl e \<Rightarrow> Inl e
      | Inr (result, currentMoon) \<Rightarrow> Inr (result, None))"

text \<open>\<^verbatim>\<open>strings.Join(elems, sep)\<close>.\<close>

fun Join :: "string list \<Rightarrow> string \<Rightarrow> string" where
  "Join [] sep = []"
| "Join [x] sep = x"
| "Join (x # y # ys) sep = x @ sep @ Join (y # ys) sep"

section \<open>Lines, rows and tokens\<close>

text \<open>The notions the properties below are stated with. A line is a group header when
  the loop takes its first branch for it: it is not blank, has no "Moon Product" in it
  and matches the pattern of a moon line; \<open>headerOf\<close> gives the key it sets. A line
  is a data row when the loop reaches the pattern of a product line for it and the
  pattern matches; \<open>dataRow\<close> gives the item name and the record.\<close>

definition headerOf :: "string \<Rightarrow> string option" where
  "headerOf rawLine =
     (let line = TrimRight rawLine [CHR 0x0D];
          trimmed = TrimSpace line;
          m = FindStringSubmatch moonLineRe line
      in if trimmed \<noteq> [] \<and> \<not> Contains trimmed ''Moon Product'' \<and> length m = 2
         then Some (m ! 1) else None)"

definition dataRow :: "string \<Rightarrow> (string \<times> MoonProductData) option" where
  "dataRow rawLine =
     (let line = TrimRight rawLine [CHR 0x0D];
          trimmed = TrimSpace line;
          m = FindStringSubmatch productLineRe line
      in if trimmed \<noteq> [] \<and> \<not> Contains trimmed ''Moon Product''
            \<and> length (FindStringSubmatch moonLineRe line) \<noteq> 2 \<and> length m = 7
         then Some (m ! 1, \<lparr>Quantity = m ! 2, OreTypeID = m ! 3, SolarSystemID = m ! 4,
                            PlanetID = m ! 5, MoonID = m ! 6\<rparr>)
         else None)"

text \<open>The data rows of the lines in input order, each with the group key that is
  active when the loop reads it; a row read while no group is active is left out.\<close>

fun rows :: "string \<Rightarrow> string list \<Rightarrow> (string \<times> string \<times> MoonProductData) list" where
  "rows cur [] = []"
| "rows cur (l # ls) =
     (case headerOf l of
        Some h \<Rightarrow> rows h ls
      | None \<Rightarrow>
          (case dataRow l of
             Some (n, r) \<Rightarrow> if cur = [] then rows cur ls else (cur, n, r) # rows cur ls
           | None \<Rightarrow> rows cur ls))"

text \<open>The record a table holds for a group key and an item key.\<close>

definition lookup :: "MoonProducts \<Rightarrow> string \<Rightarrow> string \<Rightarrow> MoonProductData option" where
  "lookup t g n = (case t g of None \<Rightarrow> None | Some inner \<Rightarrow> inner n)"

text \<open>The record of the last row of a list of rows that has the given group key and
  item key.\<close>

definition lastRow ::
  "string \<Rightarrow> string \<Rightarrow> (string \<times> string \<times> MoonProductData) list \<Rightarrow> MoonProductData option" where
  "lastRow g n rs =
     (case filter (\<lambda>(g', n', r). g' = g \<and> n' = n) rs of [] \<Rightarrow> None
      | x # xs \<Rightarrow> Some (snd (snd (last (x # xs)))))"

text \<open>The number of tokens of a line that white space separates, white space being the
  class \<^verbatim>\<open>\s\<close> of the patterns; \<open>inWord\<close> says that the character before was part of a
  token.\<close>

fun tokensFrom :: "bool \<Rightarrow> string \<Rightarrow> nat" where
  "tokensFrom inWord [] = 0"
| "tokensFrom inWord (c # cs) =
     (if reSpace c then tokensFrom False cs
      else (if inWord then 0 else 1) + tokensFrom True cs)"

definition countTokens :: "string \<Rightarrow> nat" where
  "countTokens s = tokensFrom False s"

text \<open>What a match of a pattern says about the text: \<open>accepts r u rest\<close> holds when
  \<open>r\<close> can match the text \<open>u\<close> with \<open>rest\<close> following it.\<close>

fun accepts :: "regex \<Rightarrow> string \<Rightarrow> string \<Rightarrow> bool" where
  "accepts (Lit l) u rest = (u = l)"
| "accepts (Star p) u rest = (\<forall>c \<in> set u. p c)"
| "accepts (Plus p) u rest = (u \<noteq> [] \<and> (\<forall>c \<in> set u. p c))"
| "accepts (PlusLazy p) u rest = (u \<noteq> [] \<and> (\<forall>c \<in> set u. p c))"
| "accepts (Opt r) u rest = (u = [] \<or> accepts r u rest)"
| "accepts (Cat r1 r2) u rest =
     (\<exists>u1 u2. u = u1 @ u2 \<and> accepts r1 u1 (u2 @ rest) \<and> accepts r2 u2 rest)"
| "accepts (Group i r) u rest = accepts r u rest"
| "accepts Bol u rest = (u = [])"
| "accepts Eol u rest = (u = [] \<and> rest = [])"

definition blank :: "string \<Rightarrow> bool" where
  "blank w = (\<forall>c \<in> set w. reSpace c)"

definition word :: "string \<Rightarrow> bool" where
  "word w = (w \<noteq> [] \<and> (\<forall>c \<in> set w. \<not> reSpace c))"

text \<open>The characters a pattern can consume.\<close>

fun charsOf :: "regex \<Rightarrow> char \<Rightarrow> bool" where
  "charsOf (Lit l) c = (c \<in> set l)"
| "charsOf (Star p) c = p c"
| "charsOf (Plus p) c = p c"
| "charsOf (PlusLazy p) c = p c"
| "charsOf (Opt r) c = charsOf r c"
| "charsOf (Cat r1 r2) c = (charsOf r1 c \<or> charsOf r2 c)"
| "charsOf (Group i r) c = charsOf r c"
| "charsOf Bol c = False"
| "charsOf Eol c = False"

text \<open>A line of white space, digits and dots that begins with two characters of white
  space: the shape of a run of numerals with an indentation and no name.\<close>

definition numeralChar :: "char \<Rightarrow> bool" where
  "numeralChar c = (reSpace c \<or> reDigit c \<or> c = CHR ''.'')"

definition indentedNumerals :: "string \<Rightarrow> bool" where
  "indentedNumerals l =
     ((case l of a # b # rest \<Rightarrow> reSpace a \<and> reSpace b | _ \<Rightarrow> False) \<and> list_all numeralChar l)"

section \<open>The clipboard watcher\<close>

definition WM_DESTROY :: "32 word" where "WM_DESTROY = 0x0002"
definition WM_QUIT :: "32 word" where "WM_QUIT = 0x0012"
definition WM_CLIPBOARDUPDATE :: "32 word" where "WM_CLIPBOARDUPDATE = 0x031D"
definition CF_UNICODETEXT :: nat where "CF_UNICODETEXT = 13"

text \<open>\<^verbatim>\<open>utf16.Decode\<close> followed by the conversion of the code points to a string, which
  writes each one in UTF-8.\<close>

fun utf16Decode :: "16 word list \<Rightarrow> nat list" where
  "utf16Decode [] = []"
| "utf16Decode [r] = [if 0xD800 \<le> unat r \<and> unat r < 0xE000 then 0xFFFD else unat r]"
| "utf16Decode (r # r2 # rs) =
     (if unat r < 0xD800 \<or> 0xE000 \<le> unat r then unat r # utf16Decode (r2 # rs)
      else if unat r < 0xDC00 \<and> 0xDC00 \<le> unat r2 \<and> unat r2 < 0xE000
        then ((unat r - 0xD800) * 1024 + (unat r2 - 0xDC00) + 0x10000) # utf16Decode rs
      else 0xFFFD # utf16Decode (r2 # rs))"

definition encodeRune :: "nat \<Rightarrow> string" where
  "encodeRune r =
     (if r < 0x80 then [char_of r]
      else if r < 0x800 then [char_of (0xC0 + r div 64), char_of (0x80 + r mod 64)]
      else if r < 0x10000 then
        [char_of (0xE0 + r div 4096), char_of (0x80 + r div 64 mod 64), char_of (0x80 + r mod 64)]
      else
        [char_of (0xF0 + r div 262144), char_of (0x80 + r div 4096 mod 64),
         char_of (0x80 + r div 64 mod 64), char_of (0x80 + r mod 64)])"

text \<open>\<^verbatim>\<open>utf16PtrToString\<close> reads the 16-bit units at the pointer up to the first zero.
  \<open>mem\<close> is what the memory holds from the pointer on; the clipboard's text is
  zero-terminated, and the units after the terminator play no part.\<close>

definition utf16PtrToString :: "nat \<Rightarrow> 16 word list \<Rightarrow> string" where
  "utf16PtrToString ptr mem =
     (if ptr = 0 then []
      else concat (map encodeRune (utf16Decode (takeWhile (\<lambda>u. u \<noteq> 0) mem))))"

text \<open>What the system answers during one extraction: whether the text format is there,
  the result of each call of \<^verbatim>\<open>OpenClipboard\<close> (the first call is number 0), the handle
  \<^verbatim>\<open>GetClipboardData\<close> returns, the pointer \<^verbatim>\<open>GlobalLock\<close> returns and the memory there.\<close>

record clipboard =
  formatAvailable :: bool
  openResult :: "nat \<Rightarrow> bool"
  dataHandle :: nat
  lockedPtr :: nat
  memory :: "16 word list"

datatype oscall =
    IsClipboardFormatAvailable
  | OpenClipboard
  | Sleep nat
  | CloseClipboard
  | GetClipboardData
  | GlobalLock
  | GlobalUnlock

datatype cliperror = NoUnicodeText | OpenClipboardFailed nat | NullClipboardData | GlobalLockFailed

definition maxAttempts :: nat where
  "maxAttempts = 5"

text \<open>The retry loop, from \<open>attempt\<close> on: whether the clipboard was opened, and the calls
  made; a sleep is in milliseconds.\<close>

function openLoop :: "(nat \<Rightarrow> bool) \<Rightarrow> nat \<Rightarrow> bool \<times> oscall list" where
  "openLoop res attempt =
     (if attempt < maxAttempts then
        (if res attempt then (True, [OpenClipboard])
         else (let (opened, calls) = openLoop res (Suc attempt)
               in (opened, OpenClipboard # Sleep (10 * 2 ^ attempt) # calls)))
      else (False, []))"
  by pat_completeness auto
termination
  by (relation "measure (\<lambda>(res, attempt). maxAttempts - attempt)") auto

declare openLoop.simps [simp del]

definition readClipboardText :: "clipboard \<Rightarrow> (cliperror + string) \<times> oscall list" where
  "readClipboardText cb =
     (if \<not> formatAvailable cb then (Inl NoUnicodeText, [IsClipboardFormatAvailable])
      else
        (let (opened, calls) = openLoop (openResult cb) 0 in
         if \<not> opened then
           (Inl (OpenClipboardFailed maxAttempts), IsClipboardFormatAvailable # calls)
         else if dataHandle cb = 0 then
           (Inl NullClipboardData,
            IsClipboardFormatAvailable # calls @ [GetClipboardData, CloseClipboard])
         else if lockedPtr cb = 0 then
           (Inl GlobalLockFailed,
            IsClipboardFormatAvailable # calls @ [GetClipboardData, GlobalLock, CloseClipboard])
         else
           (Inr (utf16PtrToString (lockedPtr cb) (memory cb)),
            IsClipboardFormatAvailable # calls @
              [GetClipboardData, GlobalLock, GlobalUnlock, CloseClipboard])))"

text \<open>The window procedure. The handler is a function of the caller; what the model keeps
  of it is that it is set and the texts it is called with.\<close>

datatype wndevent = HandlerCall string | PostQuitMessage | DefWindowProc

definition wndProc :: "bool \<Rightarrow> 32 word \<Rightarrow> clipboard \<Rightarrow> nat \<Rightarrow> nat \<times> wndevent list" where
  "wndProc handlerSet msg cb defRet =
     (if msg = WM_CLIPBOARDUPDATE then
        (0, if handlerSet then
              (case fst (readClipboardText cb) of
                 Inr text \<Rightarrow> [HandlerCall text]
               | Inl err \<Rightarrow> [])
            else [])
      else if msg = WM_DESTROY then (0, [PostQuitMessage])
      else (defRet, [DefWindowProc]))"

text \<open>One message of the queue: what \<^verbatim>\<open>GetMessageW\<close> returns, the message, and what the
  system answers while it is handled.\<close>

record osmsg =
  getMessageRet :: "64 word"
  message :: "32 word"
  clip :: clipboard
  defWindowProcRet :: nat

datatype watcherror =
    NilHandler | GetModuleHandleFailed | RegisterClassFailed | CreateWindowFailed
  | AddListenerFailed | GetMessageError

text \<open>The message loop on the messages the system delivers. \<open>Some e\<close> is the value
  \<^verbatim>\<open>Watch\<close> returns; \<open>None\<close> says that the loop has handled every message and waits in
  \<^verbatim>\<open>GetMessageW\<close> for the next. Every message is one for the window of the watcher,
  so dispatching it calls \<^verbatim>\<open>wndProc\<close>, and \<^verbatim>\<open>Watch\<close> has set the handler before the
  loop starts. \<^verbatim>\<open>int32(ret) == -1\<close> looks at the low 32 bits of the result.\<close>

fun messageLoop :: "osmsg list \<Rightarrow> watcherror option option \<times> wndevent list" where
  "messageLoop [] = (None, [])"
| "messageLoop (m # ms) =
     (if (ucast (getMessageRet m) :: 32 word) = - 1 then (Some (Some GetMessageError), [])
      else if getMessageRet m = 0 then (Some None, [])
      else (let (ret, events) = wndProc True (message m) (clip m) (defWindowProcRet m);
                (result, later) = messageLoop ms
            in (result, events @ later)))"

text \<open>\<^verbatim>\<open>Watch\<close>: whether the handler is there, whether each step of the registration
  succeeds, and then the loop.\<close>

record registration =
  moduleHandleOk :: bool
  registerClassOk :: bool
  createWindowOk :: bool
  addListenerOk :: bool

definition Watch ::
  "bool \<Rightarrow> registration \<Rightarrow> osmsg list \<Rightarrow> watcherror option option \<times> wndevent list" where
  "Watch handlerSet reg msgs =
     (if \<not> handlerSet then (Some (Some NilHandler), [])
      else if \<not> moduleHandleOk reg then (Some (Some GetModuleHandleFailed), [])
      else if \<not> registerClassOk reg then (Some (Some RegisterClassFailed), [])
      else if \<not> createWindowOk reg then (Some (Some CreateWindowFailed), [])
      else if \<not> addListenerOk reg then (Some (Some AddListenerFailed), [])
      else messageLoop msgs)"

text \<open>The number of calls of \<^verbatim>\<open>OpenClipboard\<close> among the calls made, and the sleeps
  among them in order.\<close>

definition opens :: "oscall list \<Rightarrow> nat" where
  "opens calls = length (filter (\<lambda>c. c = OpenClipboard) calls)"

fun sleeps :: "oscall list \<Rightarrow> nat list" where
  "sleeps [] = []"
| "sleeps (Sleep ms # cs) = ms # sleeps cs"
| "sleeps (c # cs) = sleeps cs"

section \<open>The handler\<close>

record Options =
  APIEndpoint :: string
  APIToken :: string

definition looksLikeMoonScan :: "string \<Rightarrow> bool" where
  "looksLikeMoonScan s =
     (let s = TrimSpace s in
      if s = [] then False
      else if Contains s ''Moon Product'' then True
      else False)"

record request =
  reqMethod :: string
  reqURL :: string
  reqBody :: string
  reqHeader :: "string \<rightharpoonup> string"

text \<open>What the handler does that can be seen from outside: the lines it logs, the text it
  prints, the request it sends, and the fatal log that ends the process.\<close>

datatype event =
    LogClipboardChanged
  | LogPossibleMoonScan
  | LogFatalParse string
  | LogMarshalFailed string
  | LogMoonScanParsed
  | Println string
  | LogUploading
  | LogRequestFailed string
  | HttpDo request
  | LogPostFailed string string
  | LogPosted string string nat
  | LogPostStatus string string

datatype outcome = Returned | Exited | Panicked panic

text \<open>The collaborators of the handler: \<^verbatim>\<open>json.Marshal\<close> (an error or the payload),
  \<^verbatim>\<open>json.MarshalIndent\<close>, the error of \<^verbatim>\<open>http.NewRequest\<close> for a method and a URL, and
  the answer of \<^verbatim>\<open>httpClient.Do\<close> (an error, or the status code and the status line).\<close>

record world =
  jsonMarshal :: "MoonProducts \<Rightarrow> string + string"
  jsonMarshalIndent :: "MoonProducts \<Rightarrow> string"
  newRequestError :: "string \<Rightarrow> string \<Rightarrow> string option"
  httpDo :: "request \<Rightarrow> string + nat \<times> string"

text \<open>Sending the request and logging the answer, the same in both variants.\<close>

definition sendRequest :: "world \<Rightarrow> Options \<Rightarrow> string \<Rightarrow> request \<Rightarrow> event list" where
  "sendRequest w opts payload req =
     HttpDo req #
     (case httpDo w req of
        Inl err \<Rightarrow> [LogPostFailed (APIEndpoint opts) err]
      | Inr (statusCode, status) \<Rightarrow>
          if 200 \<le> statusCode \<and> statusCode < 300
          then [LogPosted (APIEndpoint opts) status (length payload)]
          else [LogPostStatus (APIEndpoint opts) status])"

text \<open>The handler of \<^verbatim>\<open>cmd/goosniffer/main.go\<close>: it drops the error of the parser, and
  uploads when both the token and the endpoint are set.\<close>

definition handlerMain :: "world \<Rightarrow> Options \<Rightarrow> string \<Rightarrow> event list \<times> outcome" where
  "handlerMain w opts text =
     (if looksLikeMoonScan text then
        (case ParseMoons text of
           Inl p \<Rightarrow> ([LogClipboardChanged, LogPossibleMoonScan], Panicked p)
         | Inr (data, err) \<Rightarrow>
             (case jsonMarshal w data of
                Inl err \<Rightarrow>
                  ([LogClipboardChanged, LogPossibleMoonScan, LogMarshalFailed err], Returned)
              | Inr payload \<Rightarrow>
                  ([LogClipboardChanged, LogPossibleMoonScan, LogMoonScanParsed,
                    Println (jsonMarshalIndent w data)] @
                   (if APIToken opts \<noteq> [] \<and> APIEndpoint opts \<noteq> [] then
                      LogUploading #
                      (case newRequestError w ''POST'' (APIEndpoint opts) of
                         Some err \<Rightarrow> [LogRequestFailed err]
                       | None \<Rightarrow>
                           sendRequest w opts payload
                             \<lparr>reqMethod = ''POST'', reqURL = APIEndpoint opts, reqBody = payload,
                              reqHeader = [''Content-Type'' \<mapsto> ''application/json'',
                                ''Authorization'' \<mapsto> ''Bearer '' @ APIToken opts]\<rparr>)
                    else []), Returned)))
      else ([LogClipboardChanged], Returned))"

text \<open>The handler of the second variant (\<^verbatim>\<open>unnamed/part_000\<close>): it ends the process on
  an error of the parser, uploads when the endpoint is set, and sends the token when
  there is one.\<close>

definition handlerVariant :: "world \<Rightarrow> Options \<Rightarrow> string \<Rightarrow> event list \<times> outcome" where
  "handlerVariant w opts text =
     (if looksLikeMoonScan text then
        (case ParseMoons text of
           Inl p \<Rightarrow> ([LogClipboardChanged, LogPossibleMoonScan], Panicked p)
         | Inr (data, parseErr) \<Rightarrow>
             (case parseErr of
                Some err \<Rightarrow>
                  ([LogClipboardChanged, LogPossibleMoonScan, LogFatalParse err], Exited)
              | None \<Rightarrow>
                  (case jsonMarshal w data of
                     Inl jsErr \<Rightarrow>
                       ([LogClipboardChanged, LogPossibleMoonScan, LogMarshalFailed jsErr],
                        Returned)
                   | Inr payload \<Rightarrow>
                       ([LogClipboardChanged, LogPossibleMoonScan, LogMoonScanParsed,
                         Println (jsonMarshalIndent w data)] @
                        (if APIEndpoint opts \<noteq> [] then
                           LogUploading #
                           (case newRequestError w ''POST'' (APIEndpoint opts) of
                              Some reqErr \<Rightarrow> [LogRequestFailed reqErr]
                            | None \<Rightarrow>
                                sendRequest w opts payload
                                  \<lparr>reqMethod = ''POST'', reqURL = APIEndpoint opts,
                                   reqBody = payload,
                                   reqHeader =
                                     (if APIToken opts \<noteq> []
                                      then [''Content-Type'' \<mapsto> ''application/json'',
                                            ''Authorization'' \<mapsto> ''Bearer '' @ APIToken opts]
                                      else [''Content-Type'' \<mapsto> ''application/json''])\<rparr>)
                         else []), Returned))))
      else ([LogClipboardChanged], Returned))"

text \<open>The requests sent among the events, in order.\<close>

fun requests :: "event list \<Rightarrow> request list" where
  "requests [] = []"
| "requests (HttpDo r # es) = r # requests es"
| "requests (e # es) = requests es"

text \<open>A world for the examples: marshalling succeeds, every request can be built and
  the server answers 200.\<close>

definition exampleWorld :: world where
  "exampleWorld =
     \<lparr>jsonMarshal = (\<lambda>data. Inr ''{}''), jsonMarshalIndent = (\<lambda>data. ''{}''),
      newRequestError = (\<lambda>method url. None), httpDo = (\<lambda>req. Inr (200, ''200 OK''))\<rparr>"

section \<open>The parser never fails\<close>

text \<open>The loop keeps \<^verbatim>\<open>currentMoon\<close> either empty or a key of the table, so the write
  of a product row always finds the inner map.\<close>

lemma parseLine_inv:
  assumes "snd st = [] \<or> fst st (snd st) \<noteq> None"
  shows "\<exists>st'. parseLine st l = Inr st' \<and> (snd st' = [] \<or> fst st' (snd st') \<noteq> None)"
  using assms by (cases st) (auto simp: parseLine_def Let_def split: option.splits)

lemma parseLines_inv:
  "snd st = [] \<or> fst st (snd st) \<noteq> None \<Longrightarrow>
   \<exists>st'. parseLines st ls = Inr st' \<and> (snd st' = [] \<or> fst st' (snd st') \<noteq> None)"
proof (induction ls arbitrary: st)
  case Nil
  then show ?case by simp
next
  case (Cons l ls)
  from parseLine_inv[OF Cons.prems, of l] obtain st1 where
    s1: "parseLine st l = Inr st1" and i1: "snd st1 = [] \<or> fst st1 (snd st1) \<noteq> None"
    by blast
  from Cons.IH[OF i1] s1 show ?case by simp
qed

lemma parseLines_start:
  "\<exists>result currentMoon. parseLines (Map.empty, []) ls = Inr (result, currentMoon)"
  using parseLines_inv[of "(Map.empty, [])" ls] by auto

text \<open>
  C1. For every input string, empty, blank or unrecognised text included, ParseMoons
  returns a table and a nil error: it neither panics nor fills its error result.
\<close>

theorem ParseMoons_total: "\<exists>result. ParseMoons input = Inr (result, None)"
proof -
  obtain result currentMoon where
    "parseLines (Map.empty, []) (Split input (CHR 0x0A)) = Inr (result, currentMoon)"
    using parseLines_start by blast
  then show ?thesis by (simp add: ParseMoons_def)
qed

section \<open>The example of the documentation\<close>

lemma example_Split:
  "Split (''66-PMM V - Moon 15'' @ [CHR 0x0A] @
     ''Flawless Arkonor    0.323762148619    46678    30004923    40311969    40311985'')
     (CHR 0x0A) =
   [''66-PMM V - Moon 15'',
    ''Flawless Arkonor    0.323762148619    46678    30004923    40311969    40311985'']"
  by code_simp

lemma example_header:
  "TrimRight ''66-PMM V - Moon 15'' [CHR 0x0D] = ''66-PMM V - Moon 15''"
  "TrimSpace ''66-PMM V - Moon 15'' = ''66-PMM V - Moon 15''"
  "Contains ''66-PMM V - Moon 15'' ''Moon Product'' = False"
  "FindStringSubmatch moonLineRe ''66-PMM V - Moon 15'' =
     [''66-PMM V - Moon 15'', ''66-PMM V - Moon 15'']"
  by code_simp+

lemma example_row:
  "TrimRight
     ''Flawless Arkonor    0.323762148619    46678    30004923    40311969    40311985''
     [CHR 0x0D] =
   ''Flawless Arkonor    0.323762148619    46678    30004923    40311969    40311985''"
  "TrimSpace
     ''Flawless Arkonor    0.323762148619    46678    30004923    40311969    40311985'' =
   ''Flawless Arkonor    0.323762148619    46678    30004923    40311969    40311985''"
  "Contains
     ''Flawless Arkonor    0.323762148619    46678    30004923    40311969    40311985''
     ''Moon Product'' = False"
  "FindStringSubmatch moonLineRe
     ''Flawless Arkonor    0.323762148619    46678    30004923    40311969    40311985'' = []"
  "FindStringSubmatch productLineRe
     ''Flawless Arkonor    0.323762148619    46678    30004923    40311969    40311985'' =
   [''Flawless Arkonor    0.323762148619    46678    30004923    40311969    40311985'',
    ''Flawless Arkonor'', ''0.323762148619'', ''46678'', ''30004923'', ''40311969'',
    ''40311985'']"
  by code_simp+

text \<open>
  C4. On the two-line input of the documentation ParseMoons returns the table with the
  one group "66-PMM V - Moon 15", holding the one item "Flawless Arkonor" with quantity
  "0.323762148619", ore_type_id "46678", solar_system_id "30004923", planet_id
  "40311969" and moon_id "40311985".
\<close>

theorem ParseMoons_example:
  "ParseMoons (''66-PMM V - Moon 15'' @ [CHR 0x0A] @
     ''Flawless Arkonor    0.323762148619    46678    30004923    40311969    40311985'') =
   Inr ([''66-PMM V - Moon 15'' \<mapsto>
          [''Flawless Arkonor'' \<mapsto>
            \<lparr>Quantity = ''0.323762148619'', OreTypeID = ''46678'',
             SolarSystemID = ''30004923'', PlanetID = ''40311969'',
             MoonID = ''40311985''\<rparr>]], None)"
  unfolding ParseMoons_def example_Split
  by (simp add: parseLine_def Let_def example_header example_row)

section \<open>Evaluated examples\<close>

text \<open>The parts of the model on the lines and texts the examples below use.\<close>

lemma example_lines:
  "headerOf ''A - Moon 1'' = Some ''A - Moon 1''"
  "headerOf ''X 1 2 3 4 5'' = None"
  "headerOf ''X 9 8 7 6 5'' = None"
  "headerOf ''Flawless Arkonor 1 2 3 4 5'' = None"
  "headerOf ''Arkonor 1 2 3 4'' = None"
  "headerOf ''  1 2 3 4 5'' = None"
  by code_simp+

lemma example_splits:
  "Split (''A - Moon 1'' @ [CHR 0x0A] @ ''X 1 2 3 4 5'' @ [CHR 0x0A] @ ''X 9 8 7 6 5'') (CHR 0x0A)
     = [''A - Moon 1'', ''X 1 2 3 4 5'', ''X 9 8 7 6 5'']"
  "Split (''A - Moon 1'' @ [CHR 0x0A] @ ''Flawless Arkonor 1 2 3 4 5'') (CHR 0x0A)
     = [''A - Moon 1'', ''Flawless Arkonor 1 2 3 4 5'']"
  "Split (''X 1 2 3 4 5'' @ [CHR 0x0A] @ ''A - Moon 1'') (CHR 0x0A)
     = [''X 1 2 3 4 5'', ''A - Moon 1'']"
  "Split ''X 1 2 3 4 5'' (CHR 0x0A) = [''X 1 2 3 4 5'']"
  "Split ''Moon Product'' (CHR 0x0A) = [''Moon Product'']"
  by code_simp+

lemma example_pieces:
  "TrimRight ''X 1 2 3 4 5'' [CHR 0x0D] = ''X 1 2 3 4 5''"
  "TrimSpace ''X 1 2 3 4 5'' = ''X 1 2 3 4 5''"
  "Contains ''X 1 2 3 4 5'' ''Moon Product'' = False"
  "FindStringSubmatch moonLineRe ''X 1 2 3 4 5'' = []"
  "FindStringSubmatch productLineRe ''X 1 2 3 4 5'' =
     [''X 1 2 3 4 5'', ''X'', ''1'', ''2'', ''3'', ''4'', ''5'']"
  "TrimRight ''X 9 8 7 6 5'' [CHR 0x0D] = ''X 9 8 7 6 5''"
  "TrimSpace ''X 9 8 7 6 5'' = ''X 9 8 7 6 5''"
  "Contains ''X 9 8 7 6 5'' ''Moon Product'' = False"
  "FindStringSubmatch moonLineRe ''X 9 8 7 6 5'' = []"
  "FindStringSubmatch productLineRe ''X 9 8 7 6 5'' =
     [''X 9 8 7 6 5'', ''X'', ''9'', ''8'', ''7'', ''6'', ''5'']"
  "TrimRight ''Flawless Arkonor 1 2 3 4 5'' [CHR 0x0D] = ''Flawless Arkonor 1 2 3 4 5''"
  "TrimSpace ''Flawless Arkonor 1 2 3 4 5'' = ''Flawless Arkonor 1 2 3 4 5''"
  "Contains ''Flawless Arkonor 1 2 3 4 5'' ''Moon Product'' = False"
  "FindStringSubmatch moonLineRe ''Flawless Arkonor 1 2 3 4 5'' = []"
  "FindStringSubmatch productLineRe ''Flawless Arkonor 1 2 3 4 5'' =
     [''Flawless Arkonor 1 2 3 4 5'', ''Flawless Arkonor'', ''1'', ''2'', ''3'', ''4'', ''5'']"
  "TrimRight ''  1 2 3 4 5'' [CHR 0x0D] = ''  1 2 3 4 5''"
  "TrimSpace ''  1 2 3 4 5'' = ''1 2 3 4 5''"
  "Contains ''1 2 3 4 5'' ''Moon Product'' = False"
  "FindStringSubmatch moonLineRe ''  1 2 3 4 5'' = []"
  "FindStringSubmatch productLineRe ''  1 2 3 4 5'' =
     [''  1 2 3 4 5'', '' '', ''1'', ''2'', ''3'', ''4'', ''5'']"
  "TrimRight ''Moon Product'' [CHR 0x0D] = ''Moon Product''"
  "TrimSpace ''Moon Product'' = ''Moon Product''"
  "Contains ''Moon Product'' ''Moon Product'' = True"
  by code_simp+

lemma example_rows:
  "dataRow ''X 1 2 3 4 5'' =
     Some (''X'', \<lparr>Quantity = ''1'', OreTypeID = ''2'', SolarSystemID = ''3'',
                   PlanetID = ''4'', MoonID = ''5''\<rparr>)"
  "dataRow ''X 9 8 7 6 5'' =
     Some (''X'', \<lparr>Quantity = ''9'', OreTypeID = ''8'', SolarSystemID = ''7'',
                   PlanetID = ''6'', MoonID = ''5''\<rparr>)"
  "dataRow ''Flawless Arkonor 1 2 3 4 5'' =
     Some (''Flawless Arkonor'', \<lparr>Quantity = ''1'', OreTypeID = ''2'', SolarSystemID = ''3'',
                   PlanetID = ''4'', MoonID = ''5''\<rparr>)"
  "dataRow ''  1 2 3 4 5'' =
     Some ('' '', \<lparr>Quantity = ''1'', OreTypeID = ''2'', SolarSystemID = ''3'',
                   PlanetID = ''4'', MoonID = ''5''\<rparr>)"
  by (simp_all add: dataRow_def Let_def example_pieces)

lemma example_tokens:
  "countTokens ''Flawless Arkonor 1 2 3 4 5'' = 7"
  "countTokens ''Arkonor 1 2 3 4'' = 5"
  "countTokens ''  1 2 3 4 5'' = 5"
  "\<not> reSpace (hd ''Arkonor 1 2 3 4'')"
  by code_simp+

lemma example_indented:
  "countTokens (CHR 0x09 # ''Arkonor 1 2 3 4'') = 5"
  "\<not> indentedNumerals (CHR 0x09 # ''Arkonor 1 2 3 4'')"
  "headerOf (CHR 0x09 # ''Arkonor 1 2 3 4'') = None"
  by code_simp+

lemma example_scan:
  "looksLikeMoonScan ''Moon Product''"
  by code_simp

lemma example_scan_parse: "ParseMoons ''Moon Product'' = Inr (Map.empty, None)"
  by (simp add: ParseMoons_def example_splits parseLine_def Let_def example_pieces)

lemma example_decode: "utf16PtrToString 8 [0x48, 0x69, 0, 0x41] = ''Hi''"
  by (simp add: utf16PtrToString_def encodeRune_def char_of_def bit_Suc_0_iff)

section \<open>Headers, rows and the table\<close>

text \<open>The body of the loop, by the kind of the line.\<close>

lemma parseLine_cases:
  "parseLine (t, cur) l =
     (case headerOf l of
        Some h \<Rightarrow> Inr (if t h = None then t(h \<mapsto> Map.empty) else t, h)
      | None \<Rightarrow>
          if cur = [] then Inr (t, cur)
          else (case dataRow l of
                  Some (n, r) \<Rightarrow>
                    (case t cur of None \<Rightarrow> Inl NilMapWrite
                     | Some inner \<Rightarrow> Inr (t(cur \<mapsto> inner(n \<mapsto> r)), cur))
                | None \<Rightarrow> Inr (t, cur)))"
  by (simp add: parseLine_def headerOf_def dataRow_def Let_def)

lemma parseLines_dropWhile:
  "parseLines (t, []) ls = parseLines (t, []) (dropWhile (\<lambda>l. headerOf l = None) ls)"
  by (induction ls) (simp_all add: parseLine_cases)

lemma parseLines_no_header:
  "\<forall>l \<in> set ls. headerOf l = None \<Longrightarrow> parseLines (t, []) ls = Inr (t, [])"
  by (induction ls) (simp_all add: parseLine_cases)

lemma Split_not_Nil: "Split s c \<noteq> []"
  by (induction s) (auto split: list.splits)

lemma Split_no_sep: "l \<in> set (Split s c) \<Longrightarrow> c \<notin> set l"
  by (induction s arbitrary: l) (auto split: list.splits if_splits)

lemma Split_append_no_sep: "c \<notin> set x \<Longrightarrow> Split (x @ s) c = (case Split s c of [] \<Rightarrow> [x] | l # ls \<Rightarrow> (x @ l) # ls)"
  using Split_not_Nil[of s c] by (induction x) (auto split: list.splits)

lemma Split_Join:
  "ls \<noteq> [] \<Longrightarrow> \<forall>l \<in> set ls. c \<notin> set l \<Longrightarrow> Split (Join ls [c]) c = ls"
proof (induction ls "[c]" rule: Join.induct)
  case 1
  then show ?case by simp
next
  case (2 x)
  then show ?case by (simp add: Split_append_no_sep[of c x "[]", simplified])
next
  case (3 x y ys)
  then show ?case by (simp add: Split_append_no_sep)
qed


lemma headerOf_Nil: "headerOf [] = None"
  by code_simp

text \<open>
  C6. A line before the first line recognised as a group header adds nothing to the
  table: parsing the input gives what parsing it without those lines gives, and an
  input with no header line gives the empty table.
\<close>

theorem lines_before_first_header:
  "ParseMoons input =
     ParseMoons (Join (dropWhile (\<lambda>l. headerOf l = None) (Split input (CHR 0x0A))) [CHR 0x0A])
   \<and> ((\<forall>l \<in> set (Split input (CHR 0x0A)). headerOf l = None) \<longrightarrow>
        ParseMoons input = Inr (Map.empty, None))"
proof -
  let ?ls = "Split input (CHR 0x0A)"
  let ?d = "dropWhile (\<lambda>l. headerOf l = None) ?ls"
  have none: "(\<forall>l \<in> set ?ls. headerOf l = None) \<longrightarrow> ParseMoons input = Inr (Map.empty, None)"
    by (simp add: ParseMoons_def parseLines_no_header)
  have "parseLines (Map.empty, []) (Split (Join ?d [CHR 0x0A]) (CHR 0x0A))
      = parseLines (Map.empty, []) ?ls"
  proof (cases "?d = []")
    case True
    then have "\<forall>l \<in> set ?ls. headerOf l = None"
      by simp
    then have "parseLines (Map.empty, []) ?ls = Inr (Map.empty, [])"
      by (rule parseLines_no_header)
    moreover from True have "Join ?d [CHR 0x0A] = []"
      by (simp only: Join.simps)
    moreover have "parseLines (Map.empty, []) (Split [] (CHR 0x0A)) = Inr (Map.empty, [])"
      by (simp add: parseLine_cases headerOf_Nil)
    ultimately show ?thesis by simp
  next
    case False
    have "\<forall>l \<in> set ?d. CHR 0x0A \<notin> set l"
      using Split_no_sep set_dropWhileD by metis
    with False have "Split (Join ?d [CHR 0x0A]) (CHR 0x0A) = ?d"
      by (rule Split_Join)
    then show ?thesis
      using parseLines_dropWhile[of Map.empty ?ls] by simp
  qed
  then have "ParseMoons input = ParseMoons (Join ?d [CHR 0x0A])"
    by (simp add: ParseMoons_def)
  with none show ?thesis by blast
qed

text \<open>A row before the header is dropped, and a text with no header gives the empty table.\<close>

theorem lines_before_first_header_witness:
  "ParseMoons (''X 1 2 3 4 5'' @ [CHR 0x0A] @ ''A - Moon 1'') = ParseMoons ''A - Moon 1''
   \<and> ParseMoons ''X 1 2 3 4 5'' = Inr (Map.empty, None)"
proof -
  have "\<forall>l \<in> set (Split ''X 1 2 3 4 5'' (CHR 0x0A)). headerOf l = None"
    by (simp add: example_splits example_lines)
  with lines_before_first_header[of "''X 1 2 3 4 5''"]
  have "ParseMoons ''X 1 2 3 4 5'' = Inr (Map.empty, None)" by blast
  moreover have "ParseMoons (''X 1 2 3 4 5'' @ [CHR 0x0A] @ ''A - Moon 1'') = ParseMoons ''A - Moon 1''"
    using lines_before_first_header[of "''X 1 2 3 4 5'' @ [CHR 0x0A] @ ''A - Moon 1''"]
    by (simp add: example_splits example_lines)
  ultimately show ?thesis by simp
qed

lemma lookup_header:
  "lookup (if t h = None then t(h \<mapsto> Map.empty) else t) g n = lookup t g n"
  by (simp add: lookup_def)

lemma lookup_row:
  "t cur = Some inner \<Longrightarrow>
   lookup (t(cur \<mapsto> inner(n0 \<mapsto> r0))) g n = (if g = cur \<and> n = n0 then Some r0 else lookup t g n)"
  by (simp add: lookup_def)

lemma lastRow_Cons:
  "lastRow g n ((g', n', r) # rs) =
     (case lastRow g n rs of Some r' \<Rightarrow> Some r'
      | None \<Rightarrow> if g' = g \<and> n' = n then Some r else None)"
  by (auto simp: lastRow_def split: list.splits)

lemma parseLines_lookup:
  "cur = [] \<or> t cur \<noteq> None \<Longrightarrow> parseLines (t, cur) ls = Inr (t', cur') \<Longrightarrow>
   lookup t' g n = (case lastRow g n (rows cur ls) of None \<Rightarrow> lookup t g n | Some r \<Rightarrow> Some r)"
proof (induction ls arbitrary: t cur)
  case Nil
  then show ?case by (simp add: lastRow_def)
next
  case (Cons l ls)
  show ?case
  proof (cases "headerOf l")
    case (Some h)
    let ?t1 = "if t h = None then t(h \<mapsto> Map.empty) else t"
    from Cons.prems(2) Some have run: "parseLines (?t1, h) ls = Inr (t', cur')"
      by (simp add: parseLine_cases)
    have "h = [] \<or> ?t1 h \<noteq> None" by simp
    have "lookup ?t1 g n = lookup t g n" by (rule lookup_header)
    with Cons.IH[OF \<open>h = [] \<or> ?t1 h \<noteq> None\<close> run] Some show ?thesis
      by (simp only: rows.simps option.case)
  next
    case None
    show ?thesis
    proof (cases "cur = []")
      case True
      with Cons.prems(2) None have run: "parseLines (t, cur) ls = Inr (t', cur')"
        by (simp add: parseLine_cases)
      from Cons.IH[OF Cons.prems(1) run] None True show ?thesis
        by (simp split: option.splits)
    next
      case False
      with Cons.prems(1) obtain inner where inner: "t cur = Some inner" by auto
      show ?thesis
      proof (cases "dataRow l")
        case None2: None
        with Cons.prems(2) None False have run: "parseLines (t, cur) ls = Inr (t', cur')"
          by (simp add: parseLine_cases)
        from Cons.IH[OF Cons.prems(1) run] None None2 show ?thesis
          by simp
      next
        case (Some nr)
        obtain n0 r0 where nr: "nr = (n0, r0)" by (cases nr)
        let ?t1 = "t(cur \<mapsto> inner(n0 \<mapsto> r0))"
        from Cons.prems(2) None False Some nr inner
        have run: "parseLines (?t1, cur) ls = Inr (t', cur')"
          by (simp add: parseLine_cases)
        have "cur = [] \<or> ?t1 cur \<noteq> None" by simp
        have l1: "lookup ?t1 g n = (if g = cur \<and> n = n0 then Some r0 else lookup t g n)"
          using inner by (rule lookup_row)
        have "rows cur (l # ls) = (cur, n0, r0) # rows cur ls"
          using None False Some nr by simp
        then have lr: "lastRow g n (rows cur (l # ls)) =
            (case lastRow g n (rows cur ls) of Some r' \<Rightarrow> Some r'
             | None \<Rightarrow> if cur = g \<and> n0 = n then Some r0 else None)"
          by (simp only: lastRow_Cons)
        have ih: "lookup t' g n =
            (case lastRow g n (rows cur ls) of None \<Rightarrow> lookup ?t1 g n | Some r \<Rightarrow> Some r)"
          by (rule Cons.IH[OF \<open>cur = [] \<or> ?t1 cur \<noteq> None\<close> run])
        show ?thesis
          by (cases "lastRow g n (rows cur ls)") (auto simp: ih l1 lr simp del: rows.simps)
      qed
    qed
  qed
qed

text \<open>
  C5. When data rows under the same active group key have the same item name, the table
  holds for that group and item the record of the last of them in input order, and no
  error results: whenever the rows of the input have a last row \<open>r\<close> for the group
  \<open>g\<close> and the item \<open>n\<close>, ParseMoons returns a table with \<open>r\<close> at \<open>g\<close>, \<open>n\<close> and a
  nil error.
\<close>

theorem last_write_wins:
  assumes "lastRow g n (rows [] (Split input (CHR 0x0A))) = Some r"
  shows "\<exists>result inner. ParseMoons input = Inr (result, None)
           \<and> result g = Some inner \<and> inner n = Some r"
proof -
  obtain result currentMoon where
    run: "parseLines (Map.empty, []) (Split input (CHR 0x0A)) = Inr (result, currentMoon)"
    using parseLines_start by blast
  have "lookup result g n = Some r"
    using parseLines_lookup[OF _ run, of g n] assms by (simp add: lookup_def)
  then obtain inner where "result g = Some inner" "inner n = Some r"
    by (auto simp: lookup_def split: option.splits)
  with run show ?thesis by (simp add: ParseMoons_def)
qed

text \<open>Two rows for the item X of one moon: the table holds the second.\<close>

theorem last_write_wins_witness:
  "\<exists>result inner.
     ParseMoons (''A - Moon 1'' @ [CHR 0x0A] @ ''X 1 2 3 4 5'' @ [CHR 0x0A] @ ''X 9 8 7 6 5'')
       = Inr (result, None)
     \<and> result ''A - Moon 1'' = Some inner
     \<and> inner ''X'' = Some \<lparr>Quantity = ''9'', OreTypeID = ''8'', SolarSystemID = ''7'',
                             PlanetID = ''6'', MoonID = ''5''\<rparr>"
proof -
  have "lastRow ''A - Moon 1'' ''X''
      (rows [] (Split (''A - Moon 1'' @ [CHR 0x0A] @ ''X 1 2 3 4 5'' @ [CHR 0x0A] @ ''X 9 8 7 6 5'')
         (CHR 0x0A)))
    = Some \<lparr>Quantity = ''9'', OreTypeID = ''8'', SolarSystemID = ''7'',
            PlanetID = ''6'', MoonID = ''5''\<rparr>"
    by (simp add: example_splits example_lines example_rows lastRow_def)
  then show ?thesis by (rule last_write_wins)
qed

section \<open>Lines with too few tokens\<close>

text \<open>A match of a pattern splits the text as the pattern says.\<close>

lemma starGreedy_sound:
  "s' \<in> set (starGreedy p s) \<Longrightarrow> \<exists>u. s = u @ s' \<and> (\<forall>c \<in> set u. p c)"
proof (induction s)
  case Nil
  then show ?case by simp
next
  case (Cons c cs)
  show ?case
  proof (cases "s' = c # cs")
    case True
    then show ?thesis by simp
  next
    case False
    with Cons.prems have "p c" "s' \<in> set (starGreedy p cs)"
      by (auto split: if_splits)
    with Cons.IH obtain u where "cs = u @ s'" "\<forall>c \<in> set u. p c" by blast
    with \<open>p c\<close> have "c # cs = (c # u) @ s' \<and> (\<forall>c \<in> set (c # u). p c)" by simp
    then show ?thesis by blast
  qed
qed

lemma starLazy_sound:
  "s' \<in> set (starLazy p s) \<Longrightarrow> \<exists>u. s = u @ s' \<and> (\<forall>c \<in> set u. p c)"
proof (induction s)
  case Nil
  then show ?case by simp
next
  case (Cons c cs)
  show ?case
  proof (cases "s' = c # cs")
    case True
    then show ?thesis by simp
  next
    case False
    with Cons.prems have "p c" "s' \<in> set (starLazy p cs)"
      by (auto split: if_splits)
    with Cons.IH obtain u where "cs = u @ s'" "\<forall>c \<in> set u. p c" by blast
    with \<open>p c\<close> have "c # cs = (c # u) @ s' \<and> (\<forall>c \<in> set (c # u). p c)" by simp
    then show ?thesis by blast
  qed
qed

lemma matches_sound:
  "(s', caps') \<in> set (matches r n (s, caps)) \<Longrightarrow> \<exists>u. s = u @ s' \<and> accepts r u s'"
proof (induction r arbitrary: s caps s' caps')
  case (Lit l)
  then show ?case by (auto simp: prefix_def split: if_splits)
next
  case (Star p)
  then show ?case using starGreedy_sound[of s' p s] by auto
next
  case (Plus p)
  then obtain c cs where s: "s = c # cs" "p c" "s' \<in> set (starGreedy p cs)"
    by (auto split: list.splits if_splits)
  from starGreedy_sound[OF s(3)] obtain u where "cs = u @ s'" "\<forall>c \<in> set u. p c" by blast
  with s have "s = (c # u) @ s' \<and> accepts (Plus p) (c # u) s'" by simp
  then show ?case by blast
next
  case (PlusLazy p)
  then obtain c cs where s: "s = c # cs" "p c" "s' \<in> set (starLazy p cs)"
    by (auto split: list.splits if_splits)
  from starLazy_sound[OF s(3)] obtain u where "cs = u @ s'" "\<forall>c \<in> set u. p c" by blast
  with s have "s = (c # u) @ s' \<and> accepts (PlusLazy p) (c # u) s'" by simp
  then show ?case by blast
next
  case (Opt r)
  then show ?case by fastforce
next
  case (Cat r1 r2)
  from Cat.prems obtain s1 c1 where
    m1: "(s1, c1) \<in> set (matches r1 n (s, caps))" and
    m2: "(s', caps') \<in> set (matches r2 n (s1, c1))"
    by auto
  from Cat.IH(1)[OF m1] obtain u1 where u1: "s = u1 @ s1" "accepts r1 u1 s1" by blast
  from Cat.IH(2)[OF m2] obtain u2 where u2: "s1 = u2 @ s'" "accepts r2 u2 s'" by blast
  from u1 u2 have "s = (u1 @ u2) @ s' \<and> accepts (Cat r1 r2) (u1 @ u2) s'" by auto
  then show ?case by blast
next
  case (Group i r)
  then show ?case by fastforce
next
  case Bol
  then show ?case by (auto split: if_splits)
next
  case Eol
  then show ?case by (auto split: if_splits)
qed

lemma findFrom_sound:
  "findFrom r n s = Some (whole, caps) \<Longrightarrow> \<exists>pre u rest. s = pre @ u @ rest \<and> accepts r u rest"
proof (induction s)
  case Nil
  then obtain s' caps' where "(s', caps') \<in> set (matches r n ([], Map.empty))"
    by (auto split: list.splits)
  from matches_sound[OF this] show ?case by auto
next
  case (Cons c cs)
  show ?case
  proof (cases "matches r n (c # cs, Map.empty)")
    case Nil
    with Cons.prems have "findFrom r n cs = Some (whole, caps)" by simp
    from Cons.IH[OF this] obtain pre u rest where "cs = pre @ u @ rest" "accepts r u rest"
      by blast
    then have "c # cs = (c # pre) @ u @ rest \<and> accepts r u rest" by simp
    then show ?thesis by blast
  next
    case (Cons x xs)
    then have "(fst x, snd x) \<in> set (matches r n (c # cs, Map.empty))" by simp
    from matches_sound[OF this] obtain u where "c # cs = [] @ u @ fst x" "accepts r u (fst x)"
      by auto
    then show ?thesis by blast
  qed
qed

lemma FindStringSubmatch_sound:
  "FindStringSubmatch r s \<noteq> [] \<Longrightarrow> \<exists>pre u rest. s = pre @ u @ rest \<and> accepts r u rest"
  using findFrom_sound[of r "length s" s]
  by (auto simp: FindStringSubmatch_def split: option.splits)


lemma findFrom_Bol_short: "length s < n \<Longrightarrow> findFrom (Cat Bol r) n s = None"
  by (induction s) simp_all

lemma FindStringSubmatch_Bol:
  assumes "FindStringSubmatch (Cat Bol r) s \<noteq> []"
  shows "\<exists>u rest. s = u @ rest \<and> accepts r u rest"
proof -
  have "matches r (length s) (s, Map.empty) \<noteq> []"
  proof (cases s)
    case Nil
    with assms show ?thesis
      by (auto simp: FindStringSubmatch_def split: option.splits list.splits)
  next
    case (Cons c cs)
    with assms show ?thesis
      by (auto simp: FindStringSubmatch_def findFrom_Bol_short split: option.splits list.splits)
  qed
  then obtain s' caps' where "(s', caps') \<in> set (matches r (length s) (s, Map.empty))"
    by (cases "matches r (length s) (s, Map.empty)") auto
  from matches_sound[OF this] show ?thesis by blast
qed

lemma reDigit_not_space: "reDigit c \<Longrightarrow> \<not> reSpace c"
  by (auto simp: reDigit_def reSpace_def)

lemma digits_word: "u \<noteq> [] \<Longrightarrow> \<forall>c \<in> set u. reDigit c \<Longrightarrow> word u"
  by (auto simp: word_def reDigit_not_space)

lemma tokens_split:
  "reSpace w \<Longrightarrow> tokensFrom b (x @ w # y) = tokensFrom b x + tokensFrom False y"
  by (induction x arbitrary: b) simp_all

lemma tokens_blank: "blank w \<Longrightarrow> tokensFrom False (w @ y) = tokensFrom False y"
  by (induction w) (simp_all add: blank_def)

lemma tokens_gap: "w \<noteq> [] \<Longrightarrow> blank w \<Longrightarrow> tokensFrom b (w @ y) = tokensFrom False y"
  by (cases w) (simp_all add: blank_def tokens_blank[unfolded blank_def])

lemma tokens_in_word:
  "\<forall>c \<in> set q. \<not> reSpace c \<Longrightarrow> tokensFrom True (q @ y) = tokensFrom True y"
  by (induction q) simp_all

lemma tokens_word: "word q \<Longrightarrow> tokensFrom False (q @ y) = Suc (tokensFrom True y)"
  by (cases q) (simp_all add: word_def tokens_in_word)

lemma tail_end:
  "accepts (Cat (Star reSpace) Eol) v rest \<Longrightarrow> rest = [] \<and> tokensFrom b v = 0"
proof -
  assume "accepts (Cat (Star reSpace) Eol) v rest"
  then have r: "rest = []" and v: "blank v" by (auto simp: blank_def)
  from v have "tokensFrom b v = 0"
    by (induction v arbitrary: b) (simp_all add: blank_def)
  with r show ?thesis by simp
qed

lemma tail_field:
  assumes acc: "accepts (Cat (Plus reSpace) (Cat (Group i X) R)) u rest"
    and X: "\<And>q r. accepts X q r \<Longrightarrow> word q"
    and R: "\<And>v. accepts R v rest \<Longrightarrow> rest = [] \<and> tokensFrom True v = k"
  shows "rest = [] \<and> tokensFrom b u = Suc k \<and> u \<noteq> [] \<and> reSpace (hd u)"
proof -
  from acc obtain w q v where u: "u = w @ q @ v" and w: "w \<noteq> []" "blank w"
    and q: "accepts X q (v @ rest)" and v: "accepts R v rest"
    by (auto simp: blank_def)
  from X[OF q] have "word q" .
  then have "tokensFrom b u = Suc (tokensFrom True v)"
    using u w by (simp add: tokens_gap tokens_word)
  moreover from w have "u \<noteq> [] \<and> reSpace (hd u)"
    using u by (cases w) (simp_all add: blank_def)
  ultimately show ?thesis using R[OF v] by simp
qed

lemma digits_field: "accepts (Plus reDigit) q r \<Longrightarrow> word q"
  by (simp add: digits_word)

lemma quantity_field:
  "accepts (Cat (Plus reDigit) (Opt (Cat (Lit ''.'') (Plus reDigit)))) q r \<Longrightarrow> word q"
  by (auto simp: word_def reDigit_not_space) (simp add: reSpace_def)

lemma productLine_tail:
  assumes "accepts (Cat (Plus reSpace)
         (Cat (Group 2 (Cat (Plus reDigit) (Opt (Cat (Lit ''.'') (Plus reDigit)))))
           (Cat (Plus reSpace)
             (Cat (Group 3 (Plus reDigit)) (Cat (Plus reSpace)
               (Cat (Group 4 (Plus reDigit)) (Cat (Plus reSpace)
                 (Cat (Group 5 (Plus reDigit)) (Cat (Plus reSpace)
                   (Cat (Group 6 (Plus reDigit)) (Cat (Star reSpace) Eol))))))))))) u rest"
  shows "rest = [] \<and> tokensFrom b u = 5 \<and> u \<noteq> [] \<and> reSpace (hd u)"
proof -
  let ?E = "Cat (Star reSpace) Eol"
  let ?F6 = "Cat (Plus reSpace) (Cat (Group 6 (Plus reDigit)) ?E)"
  let ?F5 = "Cat (Plus reSpace) (Cat (Group 5 (Plus reDigit)) ?F6)"
  let ?F4 = "Cat (Plus reSpace) (Cat (Group 4 (Plus reDigit)) ?F5)"
  let ?F3 = "Cat (Plus reSpace) (Cat (Group 3 (Plus reDigit)) ?F4)"
  have e: "rest = [] \<and> tokensFrom True v = 0" if "accepts ?E v rest" for v
    using that by (rule tail_end)
  have f6: "rest = [] \<and> tokensFrom True v = 1" if "accepts ?F6 v rest" for v
    using tail_field[OF that digits_field e, where b = True] by simp
  have f5: "rest = [] \<and> tokensFrom True v = 2" if "accepts ?F5 v rest" for v
    using tail_field[OF that digits_field f6, where b = True] by simp
  have f4: "rest = [] \<and> tokensFrom True v = 3" if "accepts ?F4 v rest" for v
    using tail_field[OF that digits_field f5, where b = True] by simp
  have f3: "rest = [] \<and> tokensFrom True v = 4" if "accepts ?F3 v rest" for v
    using tail_field[OF that digits_field f4, where b = True] by simp
  show ?thesis
    using tail_field[OF assms quantity_field f3, where b = b] by simp
qed

lemma accepts_chars: "accepts r u rest \<Longrightarrow> c \<in> set u \<Longrightarrow> charsOf r c"
proof (induction r arbitrary: u rest)
  case (Cat r1 r2)
  from Cat.prems(1) obtain u1 u2 where
    u: "u = u1 @ u2" "accepts r1 u1 (u2 @ rest)" "accepts r2 u2 rest"
    by auto
  from Cat.prems(2) u(1) have "c \<in> set u1 \<or> c \<in> set u2" by simp
  then show ?case
    using Cat.IH(1)[OF u(2)] Cat.IH(2)[OF u(3)] by auto
qed auto

lemma tokens_none_blank: "tokensFrom False p = 0 \<Longrightarrow> blank p"
  by (induction p) (auto simp: blank_def split: if_splits)

lemma productLine_shape:
  assumes "FindStringSubmatch productLineRe line \<noteq> []"
  shows "line \<noteq> [] \<and> 5 \<le> countTokens line
    \<and> (countTokens line < 6 \<longrightarrow> indentedNumerals line)"
proof -
  let ?T = "Cat (Plus reSpace)
         (Cat (Group 2 (Cat (Plus reDigit) (Opt (Cat (Lit ''.'') (Plus reDigit)))))
           (Cat (Plus reSpace)
             (Cat (Group 3 (Plus reDigit)) (Cat (Plus reSpace)
               (Cat (Group 4 (Plus reDigit)) (Cat (Plus reSpace)
                 (Cat (Group 5 (Plus reDigit)) (Cat (Plus reSpace)
                   (Cat (Group 6 (Plus reDigit)) (Cat (Star reSpace) Eol))))))))))"
  from assms obtain u rest where line: "line = u @ rest" and
    "accepts (Cat (Star reSpace) (Cat (Group 1 (PlusLazy reDot)) ?T)) u rest"
    unfolding productLineRe_def using FindStringSubmatch_Bol by blast
  then obtain w0 name t where u: "u = w0 @ name @ t" and name: "name \<noteq> []" and
    t: "accepts ?T t rest"
    unfolding accepts.simps(6)[of "Star reSpace"] accepts.simps(6)[of "Group 1 (PlusLazy reDot)"]
    by (auto simp del: accepts.simps(6))
  from productLine_tail[OF t, where b = True] obtain w t' where
    rest: "rest = []" and t': "t = w # t'" "reSpace w" and five: "tokensFrom True t = 5"
    by (cases t) auto
  from t' five have five': "tokensFrom False t' = 5" by simp
  let ?p = "w0 @ name"
  have l: "line = ?p @ w # t'" using line u rest t' by simp
  have cnt: "countTokens line = tokensFrom False ?p + 5"
    unfolding countTokens_def l using tokens_split[OF t'(2), of False ?p t'] five' by simp
  have pne: "?p \<noteq> []" using name by simp
  have "indentedNumerals line" if "countTokens line < 6"
  proof -
    from that cnt have "tokensFrom False ?p = 0" by simp
    then have bp: "blank ?p" by (rule tokens_none_blank)
    have tail: "numeralChar c" if "c \<in> set t" for c
      using accepts_chars[OF t that] by (auto simp: numeralChar_def)
    have "list_all numeralChar line"
      unfolding l using bp tail t' by (auto simp: list_all_iff blank_def numeralChar_def)
    moreover obtain a p' where p: "?p = a # p'" using pne by (cases ?p) auto
    then have "reSpace a" using bp by (auto simp: blank_def)
    moreover have "\<exists>b rest'. a # p' @ w # t' = a # b # rest' \<and> reSpace b"
      using bp p t'(2) by (cases p') (auto simp: blank_def)
    ultimately show ?thesis
      unfolding indentedNumerals_def l p by auto
  qed
  with cnt l show ?thesis by auto
qed

lemma TrimRight_split: "\<exists>w. s = TrimRight s cs @ w \<and> set w \<subseteq> set cs"
proof -
  let ?P = "\<lambda>c. c \<in> set cs"
  have "rev s = takeWhile ?P (rev s) @ dropWhile ?P (rev s)" by simp
  then have "s = rev (dropWhile ?P (rev s)) @ rev (takeWhile ?P (rev s))"
    by (metis rev_append rev_rev_ident)
  moreover have "set (rev (takeWhile ?P (rev s))) \<subseteq> set cs"
    by (auto dest: set_takeWhileD)
  ultimately show ?thesis unfolding TrimRight_def by blast
qed

lemma tokens_trailing: "blank w \<Longrightarrow> tokensFrom b (x @ w) = tokensFrom b x"
proof (induction x arbitrary: b)
  case Nil
  then show ?case by (induction w arbitrary: b) (simp_all add: blank_def)
next
  case (Cons c x)
  then show ?case by simp
qed

lemma TrimRight_cr:
  "countTokens (TrimRight s [CHR 0x0D]) = countTokens s"
  "TrimRight s [CHR 0x0D] \<noteq> [] \<Longrightarrow> hd (TrimRight s [CHR 0x0D]) = hd s"
proof -
  obtain w where w: "s = TrimRight s [CHR 0x0D] @ w" "set w \<subseteq> {CHR 0x0D}"
    using TrimRight_split[of s "[CHR 0x0D]"] by auto
  then have "blank w" by (auto simp: blank_def reSpace_def)
  then show "countTokens (TrimRight s [CHR 0x0D]) = countTokens s"
    unfolding countTokens_def using w(1) tokens_trailing by metis
  show "hd (TrimRight s [CHR 0x0D]) = hd s" if "TrimRight s [CHR 0x0D] \<noteq> []"
    using that w(1) by (metis hd_append2)
qed

lemma FindStringSubmatch_length:
  "length (FindStringSubmatch r s) = 7 \<Longrightarrow> FindStringSubmatch r s \<noteq> []"
  by auto

lemma indentedNumerals_TrimRight:
  "indentedNumerals (TrimRight s [CHR 0x0D]) \<Longrightarrow> indentedNumerals s"
proof -
  assume a: "indentedNumerals (TrimRight s [CHR 0x0D])"
  obtain w where w: "s = TrimRight s [CHR 0x0D] @ w" "set w \<subseteq> {CHR 0x0D}"
    using TrimRight_split[of s "[CHR 0x0D]"] by auto
  from a obtain x y rest where t: "TrimRight s [CHR 0x0D] = x # y # rest" "reSpace x" "reSpace y"
    and all: "list_all numeralChar (TrimRight s [CHR 0x0D])"
    by (auto simp: indentedNumerals_def split: list.splits)
  from w(2) have "list_all numeralChar w"
    by (auto simp: list_all_iff numeralChar_def reSpace_def)
  with all have "list_all numeralChar (TrimRight s [CHR 0x0D] @ w)" by simp
  moreover have "TrimRight s [CHR 0x0D] @ w = x # y # (rest @ w)" using t(1) by simp
  ultimately have "indentedNumerals (TrimRight s [CHR 0x0D] @ w)"
    using t(2,3) by (simp add: indentedNumerals_def)
  with w(1) show ?thesis by simp
qed

text \<open>
  C3. A line with fewer than six tokens separated by white space is never a data row,
  unless it has five tokens and is an indented run of numerals (nothing but white space,
  digits and dots, after two or more characters of white space), a case this statement
  leaves open. Reading a line that is not a data row leaves the entries of every group
  as they are: the table after it holds all that the table before it held, and is the
  same table unless the line is a group header. Reading any line at all leaves every
  group other than the active one as it is, or adds it empty. (A line with more than six
  tokens can be a data row, since the item name may contain white space.)
\<close>

theorem short_line_discarded:
  "(countTokens rawLine < 5 \<or> (countTokens rawLine < 6 \<and> \<not> indentedNumerals rawLine)
      \<longrightarrow> dataRow rawLine = None)
   \<and> (dataRow rawLine = None \<longrightarrow>
        (\<exists>t'. parseLine (t, cur) rawLine =
                 Inr (t', case headerOf rawLine of None \<Rightarrow> cur | Some h \<Rightarrow> h)
             \<and> t \<subseteq>\<^sub>m t' \<and> (headerOf rawLine = None \<longrightarrow> t' = t)))
   \<and> (\<forall>t' cur'. parseLine (t, cur) rawLine = Inr (t', cur') \<longrightarrow>
        (\<forall>g. g \<noteq> cur \<longrightarrow> t' g = t g \<or> (t g = None \<and> t' g = Some Map.empty)))"
proof (intro conjI impI allI)
  let ?line = "TrimRight rawLine [CHR 0x0D]"
  assume a: "countTokens rawLine < 5 \<or> (countTokens rawLine < 6 \<and> \<not> indentedNumerals rawLine)"
  have "length (FindStringSubmatch productLineRe ?line) \<noteq> 7"
  proof
    assume "length (FindStringSubmatch productLineRe ?line) = 7"
    then have "FindStringSubmatch productLineRe ?line \<noteq> []" by auto
    from productLine_shape[OF this]
    have five: "5 \<le> countTokens ?line"
      and shape: "countTokens ?line < 6 \<longrightarrow> indentedNumerals ?line" by simp_all
    from five a have a': "countTokens rawLine < 6 \<and> \<not> indentedNumerals rawLine"
      by (simp add: TrimRight_cr(1))
    with shape have "indentedNumerals ?line" by (simp add: TrimRight_cr(1))
    then have "indentedNumerals rawLine" by (rule indentedNumerals_TrimRight)
    with a' show False by simp
  qed
  then show "dataRow rawLine = None" by (simp add: dataRow_def Let_def)
next
  assume d: "dataRow rawLine = None"
  show "\<exists>t'. parseLine (t, cur) rawLine =
                 Inr (t', case headerOf rawLine of None \<Rightarrow> cur | Some h \<Rightarrow> h)
             \<and> t \<subseteq>\<^sub>m t' \<and> (headerOf rawLine = None \<longrightarrow> t' = t)"
  proof (cases "headerOf rawLine")
    case None
    with d show ?thesis by (simp add: parseLine_cases)
  next
    case (Some h)
    with d show ?thesis by (auto simp: parseLine_cases map_le_def)
  qed
next
  fix t' cur' g
  assume p: "parseLine (t, cur) rawLine = Inr (t', cur')" and g: "g \<noteq> cur"
  show "t' g = t g \<or> (t g = None \<and> t' g = Some Map.empty)"
    using p g by (auto simp: parseLine_cases split: option.splits if_splits)
qed

text \<open>A row cut short and indented with a tab, under an active moon: it is no data row
  and changes nothing.\<close>

theorem short_line_discarded_witness:
  "dataRow (CHR 0x09 # ''Arkonor 1 2 3 4'') = None
   \<and> parseLine ([''A - Moon 1'' \<mapsto> Map.empty], ''A - Moon 1'') (CHR 0x09 # ''Arkonor 1 2 3 4'') =
       Inr ([''A - Moon 1'' \<mapsto> Map.empty], ''A - Moon 1'')"
proof -
  have h: "countTokens (CHR 0x09 # ''Arkonor 1 2 3 4'') < 5
      \<or> (countTokens (CHR 0x09 # ''Arkonor 1 2 3 4'') < 6
          \<and> \<not> indentedNumerals (CHR 0x09 # ''Arkonor 1 2 3 4''))"
    by (simp add: example_indented)
  from short_line_discarded[of "CHR 0x09 # ''Arkonor 1 2 3 4''"
      "[''A - Moon 1'' \<mapsto> Map.empty]" "''A - Moon 1''"] h
  show ?thesis by (auto simp: example_indented)
qed

text \<open>A line of more than six tokens can be a data row: here the name takes two of the
  seven tokens, and the row is stored.\<close>

theorem seven_token_row_counterexample:
  "countTokens ''Flawless Arkonor 1 2 3 4 5'' = 7
   \<and> ParseMoons (''A - Moon 1'' @ [CHR 0x0A] @ ''Flawless Arkonor 1 2 3 4 5'') =
       Inr ([''A - Moon 1'' \<mapsto> [''Flawless Arkonor'' \<mapsto>
              \<lparr>Quantity = ''1'', OreTypeID = ''2'', SolarSystemID = ''3'',
               PlanetID = ''4'', MoonID = ''5''\<rparr>]], None)"
  by (simp add: example_tokens ParseMoons_def example_splits parseLine_cases example_lines
      example_rows)

text \<open>A line of five numerals that begins with two blanks is stored too, under the name
  made of one blank: the pattern is matched against the line before it is trimmed.\<close>

lemma indented_five_token_row:
  "countTokens ''  1 2 3 4 5'' = 5
   \<and> parseLine ([''A - Moon 1'' \<mapsto> Map.empty], ''A - Moon 1'') ''  1 2 3 4 5'' =
       Inr ([''A - Moon 1'' \<mapsto> ['' '' \<mapsto>
              \<lparr>Quantity = ''1'', OreTypeID = ''2'', SolarSystemID = ''3'',
               PlanetID = ''4'', MoonID = ''5''\<rparr>]], ''A - Moon 1'')"
  by (simp add: example_tokens parseLine_cases example_lines example_rows)

section \<open>Reading the clipboard\<close>

lemma openLoop_unfold:
  "openLoop res 0 =
     (if res 0 then (True, [OpenClipboard])
      else if res (Suc 0) then (True, [OpenClipboard, Sleep 10, OpenClipboard])
      else if res (Suc (Suc 0)) then
        (True, [OpenClipboard, Sleep 10, OpenClipboard, Sleep 20, OpenClipboard])
      else if res (Suc (Suc (Suc 0))) then
        (True, [OpenClipboard, Sleep 10, OpenClipboard, Sleep 20, OpenClipboard, Sleep 40,
                OpenClipboard])
      else if res (Suc (Suc (Suc (Suc 0)))) then
        (True, [OpenClipboard, Sleep 10, OpenClipboard, Sleep 20, OpenClipboard, Sleep 40,
                OpenClipboard, Sleep 80, OpenClipboard])
      else
        (False, [OpenClipboard, Sleep 10, OpenClipboard, Sleep 20, OpenClipboard, Sleep 40,
                 OpenClipboard, Sleep 80, OpenClipboard, Sleep 160]))"
  by (simp add: openLoop.simps[of res 0] openLoop.simps[of res "Suc 0"]
      openLoop.simps[of res "Suc (Suc 0)"] openLoop.simps[of res "Suc (Suc (Suc 0))"]
      openLoop.simps[of res "Suc (Suc (Suc (Suc 0)))"]
      openLoop.simps[of res "Suc (Suc (Suc (Suc (Suc 0))))"] maxAttempts_def)

lemma sleeps_append: "sleeps (xs @ ys) = sleeps xs @ sleeps ys"
  by (induction xs rule: sleeps.induct) simp_all

lemma openLoop_bounds:
  "opens (snd (openLoop res 0)) \<le> 5 \<and> prefix (sleeps (snd (openLoop res 0))) [10, 20, 40, 80, 160]"
  by (simp add: openLoop_unfold opens_def)

lemma readClipboardText_calls:
  "\<exists>tail. snd (readClipboardText cb) = IsClipboardFormatAvailable # tail
      \<and> (tail = [] \<or> (\<exists>more. tail = snd (openLoop (openResult cb) 0) @ more
            \<and> opens more = 0 \<and> sleeps more = []))"
  by (auto simp: readClipboardText_def opens_def split: prod.splits)

lemma four_failures:
  assumes "\<forall>k<4. \<not> res k" and "res 4"
  shows "openLoop res 0 =
    (True, [OpenClipboard, Sleep 10, OpenClipboard, Sleep 20, OpenClipboard, Sleep 40,
            OpenClipboard, Sleep 80, OpenClipboard])"
proof -
  have "\<not> res 0" "\<not> res (Suc 0)" "\<not> res (Suc (Suc 0))" "\<not> res (Suc (Suc (Suc 0)))"
    using assms(1) by simp_all
  moreover have "res (Suc (Suc (Suc (Suc 0))))"
    using assms(2) by (simp add: eval_nat_numeral)
  ultimately show ?thesis by (simp add: openLoop_unfold)
qed

lemma five_failures:
  assumes "\<forall>k<5. \<not> res k"
  shows "openLoop res 0 =
    (False, [OpenClipboard, Sleep 10, OpenClipboard, Sleep 20, OpenClipboard, Sleep 40,
             OpenClipboard, Sleep 80, OpenClipboard, Sleep 160])"
proof -
  have "\<not> res 0" "\<not> res (Suc 0)" "\<not> res (Suc (Suc 0))" "\<not> res (Suc (Suc (Suc 0)))"
    "\<not> res (Suc (Suc (Suc (Suc 0))))"
    using assms by simp_all
  then show ?thesis by (simp add: openLoop_unfold)
qed

lemma five_attempts:
  "(\<forall>k<5. \<not> res k) =
     (\<not> res 0 \<and> \<not> res (Suc 0) \<and> \<not> res (Suc (Suc 0)) \<and> \<not> res (Suc (Suc (Suc 0)))
      \<and> \<not> res (Suc (Suc (Suc (Suc 0)))))"
proof -
  have e: "(5::nat) = Suc (Suc (Suc (Suc (Suc 0))))" by simp
  show ?thesis unfolding e by (auto simp: less_Suc_eq)
qed

lemma openLoop_opened: "fst (openLoop res 0) = (\<not> (\<forall>k<5. \<not> res k))"
  unfolding five_attempts by (simp add: openLoop_unfold)

lemma openLoop_first_success:
  assumes "\<forall>k<n. \<not> res k" and "n \<le> 5" and "n < 5 \<longrightarrow> res n"
  shows "opens (snd (openLoop res 0)) = min (Suc n) 5
    \<and> sleeps (snd (openLoop res 0)) = take n [10, 20, 40, 80, 160]"
proof -
  from assms(2) consider "n = 0" | "n = Suc 0" | "n = Suc (Suc 0)" | "n = Suc (Suc (Suc 0))"
    | "n = Suc (Suc (Suc (Suc 0)))" | "n = Suc (Suc (Suc (Suc (Suc 0))))"
    by (auto simp: eval_nat_numeral le_Suc_eq)
  then show ?thesis
  proof cases
    case 1
    with assms(3) show ?thesis by (simp add: openLoop_unfold opens_def)
  next
    case 2
    with assms(1,3) show ?thesis by (simp add: openLoop_unfold opens_def)
  next
    case 3
    with assms(1,3) show ?thesis by (simp add: openLoop_unfold opens_def less_Suc_eq)
  next
    case 4
    with assms(1,3) show ?thesis by (simp add: openLoop_unfold opens_def less_Suc_eq)
  next
    case 5
    with assms(1,3) show ?thesis by (simp add: openLoop_unfold opens_def less_Suc_eq)
  next
    case 6
    with assms(1) show ?thesis by (simp add: openLoop_unfold opens_def less_Suc_eq)
  qed
qed

lemma readClipboardText_loop:
  "formatAvailable cb \<Longrightarrow>
   opens (snd (readClipboardText cb)) = opens (snd (openLoop (openResult cb) 0))
   \<and> sleeps (snd (readClipboardText cb)) = sleeps (snd (openLoop (openResult cb) 0))"
  by (auto simp: readClipboardText_def opens_def sleeps_append split: prod.splits)

text \<open>
  C7. The extraction opens the clipboard at most 5 times and sleeps after every failed
  attempt, 10, 20, 40 and 80 ms between the attempts and 160 ms after the fifth: when
  the first \<open>n\<close> attempts fail and the next one, if there is one among the 5, succeeds,
  it has opened min (n + 1) 5 times and slept the first \<open>n\<close> of 10, 20, 40, 80 and
  160 ms. When the first 4 attempts fail and the 5th succeeds, it gives what it gives
  when the first attempt succeeds (the decoded string, when the data handle and the lock
  are there) and has slept 10 + 20 + 40 + 80 = 150 ms before the attempt that succeeds.
  When all 5 attempts fail it returns an error after the sleep of 160 ms, and the window
  procedure calls no handler and returns.
\<close>

theorem retry_policy:
  "opens (snd (readClipboardText cb)) \<le> 5
   \<and> prefix (sleeps (snd (readClipboardText cb))) [10, 20, 40, 80, 160]
   \<and> (formatAvailable cb \<and> (\<forall>k<n. \<not> openResult cb k) \<and> n \<le> 5
        \<and> (n < 5 \<longrightarrow> openResult cb n) \<longrightarrow>
        opens (snd (readClipboardText cb)) = min (Suc n) 5
        \<and> sleeps (snd (readClipboardText cb)) = take n [10, 20, 40, 80, 160])
   \<and> ((\<forall>k<4. \<not> openResult cb k) \<and> openResult cb 4 \<longrightarrow>
        fst (readClipboardText cb) = fst (readClipboardText (cb\<lparr>openResult := \<lambda>k. True\<rparr>))
        \<and> (formatAvailable cb \<longrightarrow> sum_list (sleeps (snd (readClipboardText cb))) = 150)
        \<and> (formatAvailable cb \<and> dataHandle cb \<noteq> 0 \<and> lockedPtr cb \<noteq> 0 \<longrightarrow>
             readClipboardText cb =
               (Inr (utf16PtrToString (lockedPtr cb) (memory cb)),
                [IsClipboardFormatAvailable, OpenClipboard, Sleep 10, OpenClipboard, Sleep 20,
                 OpenClipboard, Sleep 40, OpenClipboard, Sleep 80, OpenClipboard,
                 GetClipboardData, GlobalLock, GlobalUnlock, CloseClipboard])))
   \<and> (formatAvailable cb \<and> (\<forall>k<5. \<not> openResult cb k) \<longrightarrow>
        readClipboardText cb =
          (Inl (OpenClipboardFailed 5),
           [IsClipboardFormatAvailable, OpenClipboard, Sleep 10, OpenClipboard, Sleep 20,
            OpenClipboard, Sleep 40, OpenClipboard, Sleep 80, OpenClipboard, Sleep 160])
        \<and> wndProc True WM_CLIPBOARDUPDATE cb d = (0, []))"
proof (intro conjI impI)
  obtain tail where t: "snd (readClipboardText cb) = IsClipboardFormatAvailable # tail"
    and c: "tail = [] \<or> (\<exists>more. tail = snd (openLoop (openResult cb) 0) @ more
            \<and> opens more = 0 \<and> sleeps more = [])"
    using readClipboardText_calls by blast
  from c show "opens (snd (readClipboardText cb)) \<le> 5"
    using openLoop_bounds[of "openResult cb"] unfolding t by (auto simp: opens_def)
  from c show "prefix (sleeps (snd (readClipboardText cb))) [10, 20, 40, 80, 160]"
    using openLoop_bounds[of "openResult cb"] unfolding t by (auto simp: sleeps_append)
next
  assume a: "formatAvailable cb \<and> (\<forall>k<n. \<not> openResult cb k) \<and> n \<le> 5
        \<and> (n < 5 \<longrightarrow> openResult cb n)"
  then have f: "opens (snd (openLoop (openResult cb) 0)) = min (Suc n) 5
    \<and> sleeps (snd (openLoop (openResult cb) 0)) = take n [10, 20, 40, 80, 160]"
    by (intro openLoop_first_success) simp_all
  from a f show "opens (snd (readClipboardText cb)) = min (Suc n) 5"
    by (simp add: readClipboardText_loop)
  from a f show "sleeps (snd (readClipboardText cb)) = take n [10, 20, 40, 80, 160]"
    by (simp add: readClipboardText_loop)
next
  assume a: "(\<forall>k<4. \<not> openResult cb k) \<and> openResult cb 4"
  then have l: "openLoop (openResult cb) 0 =
    (True, [OpenClipboard, Sleep 10, OpenClipboard, Sleep 20, OpenClipboard, Sleep 40,
            OpenClipboard, Sleep 80, OpenClipboard])"
    by (simp add: four_failures)
  have l': "openLoop (\<lambda>k. True) 0 = (True, [OpenClipboard])"
    by (simp add: openLoop_unfold)
  show "fst (readClipboardText cb) = fst (readClipboardText (cb\<lparr>openResult := \<lambda>k. True\<rparr>))"
    by (simp add: readClipboardText_def l l')
  show "sum_list (sleeps (snd (readClipboardText cb))) = 150" if "formatAvailable cb"
    using that by (simp add: readClipboardText_def l)
  show "readClipboardText cb =
      (Inr (utf16PtrToString (lockedPtr cb) (memory cb)),
       [IsClipboardFormatAvailable, OpenClipboard, Sleep 10, OpenClipboard, Sleep 20,
        OpenClipboard, Sleep 40, OpenClipboard, Sleep 80, OpenClipboard,
        GetClipboardData, GlobalLock, GlobalUnlock, CloseClipboard])"
    if "formatAvailable cb \<and> dataHandle cb \<noteq> 0 \<and> lockedPtr cb \<noteq> 0"
    using that by (simp add: readClipboardText_def l)
next
  assume a: "formatAvailable cb \<and> (\<forall>k<5. \<not> openResult cb k)"
  then have l: "openLoop (openResult cb) 0 =
    (False, [OpenClipboard, Sleep 10, OpenClipboard, Sleep 20, OpenClipboard, Sleep 40,
             OpenClipboard, Sleep 80, OpenClipboard, Sleep 160])"
    by (simp add: five_failures)
  with a show r: "readClipboardText cb =
          (Inl (OpenClipboardFailed 5),
           [IsClipboardFormatAvailable, OpenClipboard, Sleep 10, OpenClipboard, Sleep 20,
            OpenClipboard, Sleep 40, OpenClipboard, Sleep 80, OpenClipboard, Sleep 160])"
    by (simp add: readClipboardText_def maxAttempts_def)
  then show "wndProc True WM_CLIPBOARDUPDATE cb d = (0, [])"
    by (simp add: wndProc_def)
qed

text \<open>Four failures and a success give the text "Hi" after 150 ms of sleep; five failures
  give the error after the sleep of 160 ms and no call of the handler.\<close>

theorem retry_policy_witness:
  "readClipboardText
     \<lparr>formatAvailable = True, openResult = (\<lambda>k. 4 \<le> k), dataHandle = 1, lockedPtr = 8,
      memory = [0x48, 0x69, 0, 0x41]\<rparr> =
     (Inr ''Hi'',
      [IsClipboardFormatAvailable, OpenClipboard, Sleep 10, OpenClipboard, Sleep 20,
       OpenClipboard, Sleep 40, OpenClipboard, Sleep 80, OpenClipboard,
       GetClipboardData, GlobalLock, GlobalUnlock, CloseClipboard])
   \<and> readClipboardText
       \<lparr>formatAvailable = True, openResult = (\<lambda>k. False), dataHandle = 1, lockedPtr = 8,
        memory = [0x48, 0x69, 0, 0x41]\<rparr> =
     (Inl (OpenClipboardFailed 5),
      [IsClipboardFormatAvailable, OpenClipboard, Sleep 10, OpenClipboard, Sleep 20,
       OpenClipboard, Sleep 40, OpenClipboard, Sleep 80, OpenClipboard, Sleep 160])
   \<and> wndProc True WM_CLIPBOARDUPDATE
       \<lparr>formatAvailable = True, openResult = (\<lambda>k. False), dataHandle = 1, lockedPtr = 8,
        memory = [0x48, 0x69, 0, 0x41]\<rparr> 0 = (0, [])"
  using
    retry_policy[of "\<lparr>formatAvailable = True, openResult = (\<lambda>k. 4 \<le> k), dataHandle = 1,
      lockedPtr = 8, memory = [0x48, 0x69, 0, 0x41]\<rparr>" 4 0]
    retry_policy[of "\<lparr>formatAvailable = True, openResult = (\<lambda>k. False), dataHandle = 1,
      lockedPtr = 8, memory = [0x48, 0x69, 0, 0x41]\<rparr>" 5 0]
  by (simp add: example_decode)

lemma readClipboardText_result:
  "fst (readClipboardText cb) =
     (if \<not> formatAvailable cb then Inl NoUnicodeText
      else if \<forall>k<5. \<not> openResult cb k then Inl (OpenClipboardFailed 5)
      else if dataHandle cb = 0 then Inl NullClipboardData
      else if lockedPtr cb = 0 then Inl GlobalLockFailed
      else Inr (utf16PtrToString (lockedPtr cb) (memory cb)))"
  using openLoop_opened[of "openResult cb"]
  by (auto simp: readClipboardText_def maxAttempts_def split: prod.splits)

text \<open>
  C8. The extraction succeeds exactly when the text format is there, one of the 5
  attempts to open the clipboard succeeds, the data handle is not null and the lock
  gives a pointer; each of the other cases gives its error. On a clipboard update the
  window procedure calls the handler exactly when the extraction succeeds, with the
  text it gives, and calls nothing in each of the four cases of failure. In the message
  loop a notification whose extraction fails leaves no trace: the loop goes on as it
  does on the messages after it, so no error leaves the loop and the later notifications
  are handled; a notification whose extraction succeeds adds the one call of the
  handler.
\<close>

theorem extraction_failure_skips:
  "fst (readClipboardText cb) =
     (if \<not> formatAvailable cb then Inl NoUnicodeText
      else if \<forall>k<5. \<not> openResult cb k then Inl (OpenClipboardFailed 5)
      else if dataHandle cb = 0 then Inl NullClipboardData
      else if lockedPtr cb = 0 then Inl GlobalLockFailed
      else Inr (utf16PtrToString (lockedPtr cb) (memory cb)))
   \<and> wndProc True WM_CLIPBOARDUPDATE cb d =
       (0, if \<not> formatAvailable cb \<or> (\<forall>k<5. \<not> openResult cb k) \<or> dataHandle cb = 0
              \<or> lockedPtr cb = 0
           then [] else [HandlerCall (utf16PtrToString (lockedPtr cb) (memory cb))])
   \<and> snd (wndProc True WM_CLIPBOARDUPDATE cb d) =
       (case fst (readClipboardText cb) of Inr text \<Rightarrow> [HandlerCall text] | Inl err \<Rightarrow> [])
   \<and> (message m = WM_CLIPBOARDUPDATE \<and> (ucast (getMessageRet m) :: 32 word) \<noteq> - 1
        \<and> getMessageRet m \<noteq> 0 \<longrightarrow>
       messageLoop (m # ms) =
         (if \<not> formatAvailable (clip m) \<or> (\<forall>k<5. \<not> openResult (clip m) k)
              \<or> dataHandle (clip m) = 0 \<or> lockedPtr (clip m) = 0
          then messageLoop ms
          else (fst (messageLoop ms),
                HandlerCall (utf16PtrToString (lockedPtr (clip m)) (memory (clip m)))
                  # snd (messageLoop ms)))
       \<and> (case fst (readClipboardText (clip m)) of
            Inl err \<Rightarrow> messageLoop (m # ms) = messageLoop ms
          | Inr text \<Rightarrow>
              messageLoop (m # ms) =
                (fst (messageLoop ms), HandlerCall text # snd (messageLoop ms))))"
proof -
  note r = readClipboardText_result
  have w: "wndProc True WM_CLIPBOARDUPDATE cb d =
       (0, if \<not> formatAvailable cb \<or> (\<forall>k<5. \<not> openResult cb k) \<or> dataHandle cb = 0
              \<or> lockedPtr cb = 0
           then [] else [HandlerCall (utf16PtrToString (lockedPtr cb) (memory cb))])" for cb d
    by (simp add: wndProc_def r)
  have s: "snd (wndProc True WM_CLIPBOARDUPDATE cb d) =
       (case fst (readClipboardText cb) of Inr text \<Rightarrow> [HandlerCall text] | Inl err \<Rightarrow> [])"
    by (simp add: wndProc_def)
  have l: "messageLoop (m # ms) =
         (if \<not> formatAvailable (clip m) \<or> (\<forall>k<5. \<not> openResult (clip m) k)
              \<or> dataHandle (clip m) = 0 \<or> lockedPtr (clip m) = 0
          then messageLoop ms
          else (fst (messageLoop ms),
                HandlerCall (utf16PtrToString (lockedPtr (clip m)) (memory (clip m)))
                  # snd (messageLoop ms)))
       \<and> (case fst (readClipboardText (clip m)) of
            Inl err \<Rightarrow> messageLoop (m # ms) = messageLoop ms
          | Inr text \<Rightarrow>
              messageLoop (m # ms) =
                (fst (messageLoop ms), HandlerCall text # snd (messageLoop ms)))"
    if "message m = WM_CLIPBOARDUPDATE \<and> (ucast (getMessageRet m) :: 32 word) \<noteq> - 1
        \<and> getMessageRet m \<noteq> 0"
    using that w[of "clip m" "defWindowProcRet m"]
    by (auto simp: r split: prod.splits)
  from r w s l show ?thesis by blast
qed

text \<open>Notifications with a null data handle, with the clipboard never opened, with no
  lock and with no text, then one with the text "Hi": the handler is called once, for
  the last.\<close>

theorem extraction_failure_skips_witness:
  "messageLoop
     [\<lparr>getMessageRet = 1, message = WM_CLIPBOARDUPDATE,
       clip = \<lparr>formatAvailable = True, openResult = (\<lambda>k. True), dataHandle = 0, lockedPtr = 8,
               memory = [0x48, 0x69, 0, 0x41]\<rparr>, defWindowProcRet = 0\<rparr>,
      \<lparr>getMessageRet = 1, message = WM_CLIPBOARDUPDATE,
       clip = \<lparr>formatAvailable = True, openResult = (\<lambda>k. False), dataHandle = 1, lockedPtr = 8,
               memory = [0x48, 0x69, 0, 0x41]\<rparr>, defWindowProcRet = 0\<rparr>,
      \<lparr>getMessageRet = 1, message = WM_CLIPBOARDUPDATE,
       clip = \<lparr>formatAvailable = True, openResult = (\<lambda>k. True), dataHandle = 1, lockedPtr = 0,
               memory = [0x48, 0x69, 0, 0x41]\<rparr>, defWindowProcRet = 0\<rparr>,
      \<lparr>getMessageRet = 1, message = WM_CLIPBOARDUPDATE,
       clip = \<lparr>formatAvailable = False, openResult = (\<lambda>k. True), dataHandle = 1, lockedPtr = 8,
               memory = [0x48, 0x69, 0, 0x41]\<rparr>, defWindowProcRet = 0\<rparr>,
      \<lparr>getMessageRet = 1, message = WM_CLIPBOARDUPDATE,
       clip = \<lparr>formatAvailable = True, openResult = (\<lambda>k. True), dataHandle = 1, lockedPtr = 8,
               memory = [0x48, 0x69, 0, 0x41]\<rparr>, defWindowProcRet = 0\<rparr>]
   = (None, [HandlerCall ''Hi''])"
proof -
  let ?null = "\<lparr>formatAvailable = True, openResult = (\<lambda>k. True), dataHandle = 0, lockedPtr = 8,
               memory = [0x48, 0x69, 0, 0x41]\<rparr>"
  let ?closed = "\<lparr>formatAvailable = True, openResult = (\<lambda>k. False), dataHandle = 1,
               lockedPtr = 8, memory = [0x48, 0x69, 0, 0x41]\<rparr>"
  let ?nolock = "\<lparr>formatAvailable = True, openResult = (\<lambda>k. True), dataHandle = 1,
               lockedPtr = 0, memory = [0x48, 0x69, 0, 0x41]\<rparr>"
  let ?notext = "\<lparr>formatAvailable = False, openResult = (\<lambda>k. True), dataHandle = 1,
               lockedPtr = 8, memory = [0x48, 0x69, 0, 0x41]\<rparr>"
  let ?good = "\<lparr>formatAvailable = True, openResult = (\<lambda>k. True), dataHandle = 1, lockedPtr = 8,
               memory = [0x48, 0x69, 0, 0x41]\<rparr>"
  let ?m1 = "\<lparr>getMessageRet = 1, message = WM_CLIPBOARDUPDATE, clip = ?null, defWindowProcRet = 0\<rparr>"
  let ?m2 = "\<lparr>getMessageRet = 1, message = WM_CLIPBOARDUPDATE, clip = ?closed, defWindowProcRet = 0\<rparr>"
  let ?m3 = "\<lparr>getMessageRet = 1, message = WM_CLIPBOARDUPDATE, clip = ?nolock, defWindowProcRet = 0\<rparr>"
  let ?m4 = "\<lparr>getMessageRet = 1, message = WM_CLIPBOARDUPDATE, clip = ?notext, defWindowProcRet = 0\<rparr>"
  let ?m5 = "\<lparr>getMessageRet = 1, message = WM_CLIPBOARDUPDATE, clip = ?good, defWindowProcRet = 0\<rparr>"
  have some: "(\<forall>k::nat. \<not> k < 5) = False"
    by (auto intro: exI[of _ 0])
  have "messageLoop (?m5 # []) = (None, [HandlerCall ''Hi''])"
    using extraction_failure_skips[of ?good 0 ?m5 "[]"] by (simp add: example_decode some)
  moreover have "messageLoop (?m4 # [?m5]) = messageLoop [?m5]"
    using extraction_failure_skips[of ?notext 0 ?m4 "[?m5]"] by (simp add: some)
  moreover have "messageLoop (?m3 # [?m4, ?m5]) = messageLoop [?m4, ?m5]"
    using extraction_failure_skips[of ?nolock 0 ?m3 "[?m4, ?m5]"] by (simp add: some)
  moreover have "messageLoop (?m2 # [?m3, ?m4, ?m5]) = messageLoop [?m3, ?m4, ?m5]"
    using extraction_failure_skips[of ?closed 0 ?m2 "[?m3, ?m4, ?m5]"] by (simp add: some)
  moreover have "messageLoop (?m1 # [?m2, ?m3, ?m4, ?m5]) = messageLoop [?m2, ?m3, ?m4, ?m5]"
    using extraction_failure_skips[of ?null 0 ?m1 "[?m2, ?m3, ?m4, ?m5]"] by (simp add: some)
  ultimately show ?thesis by simp
qed

section \<open>The handler and the upload\<close>

lemma requests_sendRequest: "requests (sendRequest w opts payload req) = [req]"
  by (simp add: sendRequest_def split: sum.splits)

lemma LogUploading_sendRequest: "LogUploading \<notin> set (sendRequest w opts payload req)"
  by (auto simp: sendRequest_def split: sum.splits)

text \<open>
  C10. In the variant of the handler that checks the error of the parser, the fatal
  branch is never taken: for every clipboard text, every configuration and every
  behaviour of the collaborators the handler returns, and it never logs the fatal
  message.
\<close>

theorem fatal_branch_unreachable:
  "snd (handlerVariant w opts text) = Returned
   \<and> (\<forall>err. LogFatalParse err \<notin> set (fst (handlerVariant w opts text)))"
proof -
  obtain data currentMoon where
    "parseLines (Map.empty, []) (Split text (CHR 0x0A)) = Inr (data, currentMoon)"
    using parseLines_start by blast
  then have "ParseMoons text = Inr (data, None)"
    by (simp add: ParseMoons_def)
  then show ?thesis
    by (auto simp: handlerVariant_def sendRequest_def split: sum.splits option.splits)
qed

text \<open>
  C2. On text recognised as moon-scan data that marshals, and with a
  request that can be built: the second variant of the handler attempts the upload
  exactly when the endpoint is set, and sends one POST with the content type and, only
  when the token is set, the bearer token; the handler of main.go attempts the upload
  exactly when both the token and the endpoint are set, and its POST always carries the
  bearer token.
\<close>

theorem upload_policy:
  assumes "looksLikeMoonScan text"
    and "ParseMoons text = Inr (data, perr)"
    and "jsonMarshal w data = Inr payload"
    and "newRequestError w ''POST'' (APIEndpoint opts) = None"
  shows "(LogUploading \<in> set (fst (handlerVariant w opts text))) = (APIEndpoint opts \<noteq> [])
    \<and> requests (fst (handlerVariant w opts text)) =
       (if APIEndpoint opts = [] then []
        else [\<lparr>reqMethod = ''POST'', reqURL = APIEndpoint opts, reqBody = payload,
               reqHeader =
                 (if APIToken opts = [] then [''Content-Type'' \<mapsto> ''application/json'']
                  else [''Content-Type'' \<mapsto> ''application/json'',
                        ''Authorization'' \<mapsto> ''Bearer '' @ APIToken opts])\<rparr>])
    \<and> (LogUploading \<in> set (fst (handlerMain w opts text))) =
       (APIToken opts \<noteq> [] \<and> APIEndpoint opts \<noteq> [])
    \<and> requests (fst (handlerMain w opts text)) =
       (if APIToken opts \<noteq> [] \<and> APIEndpoint opts \<noteq> [] then
          [\<lparr>reqMethod = ''POST'', reqURL = APIEndpoint opts, reqBody = payload,
            reqHeader = [''Content-Type'' \<mapsto> ''application/json'',
                         ''Authorization'' \<mapsto> ''Bearer '' @ APIToken opts]\<rparr>]
        else [])"
proof -
  obtain data' currentMoon where
    "parseLines (Map.empty, []) (Split text (CHR 0x0A)) = Inr (data', currentMoon)"
    using parseLines_start by blast
  with assms(2) have p: "ParseMoons text = Inr (data, None)"
    by (simp add: ParseMoons_def)
  have "(LogUploading \<in> set (fst (handlerVariant w opts text))) = (APIEndpoint opts \<noteq> [])"
    using assms(1,3,4) p by (simp add: handlerVariant_def LogUploading_sendRequest)
  moreover have "requests (fst (handlerVariant w opts text)) =
       (if APIEndpoint opts = [] then []
        else [\<lparr>reqMethod = ''POST'', reqURL = APIEndpoint opts, reqBody = payload,
               reqHeader =
                 (if APIToken opts = [] then [''Content-Type'' \<mapsto> ''application/json'']
                  else [''Content-Type'' \<mapsto> ''application/json'',
                        ''Authorization'' \<mapsto> ''Bearer '' @ APIToken opts])\<rparr>])"
    using assms(1,3,4) p by (simp add: handlerVariant_def requests_sendRequest)
  moreover have "(LogUploading \<in> set (fst (handlerMain w opts text))) =
       (APIToken opts \<noteq> [] \<and> APIEndpoint opts \<noteq> [])"
    using assms(1,3,4) p by (simp add: handlerMain_def LogUploading_sendRequest)
  moreover have "requests (fst (handlerMain w opts text)) =
       (if APIToken opts \<noteq> [] \<and> APIEndpoint opts \<noteq> [] then
          [\<lparr>reqMethod = ''POST'', reqURL = APIEndpoint opts, reqBody = payload,
            reqHeader = [''Content-Type'' \<mapsto> ''application/json'',
                         ''Authorization'' \<mapsto> ''Bearer '' @ APIToken opts]\<rparr>]
        else [])"
    using assms(1,3,4) p by (simp add: handlerMain_def requests_sendRequest)
  ultimately show ?thesis by blast
qed

text \<open>With an endpoint and no token the second variant posts without the bearer token;
  with both, main.go posts with it.\<close>

theorem upload_policy_witness:
  "requests (fst (handlerVariant exampleWorld \<lparr>APIEndpoint = ''http://x'', APIToken = []\<rparr>
       ''Moon Product'')) =
     [\<lparr>reqMethod = ''POST'', reqURL = ''http://x'', reqBody = ''{}'',
       reqHeader = [''Content-Type'' \<mapsto> ''application/json'']\<rparr>]
   \<and> requests (fst (handlerMain exampleWorld \<lparr>APIEndpoint = ''http://x'', APIToken = ''t''\<rparr>
       ''Moon Product'')) =
     [\<lparr>reqMethod = ''POST'', reqURL = ''http://x'', reqBody = ''{}'',
       reqHeader = [''Content-Type'' \<mapsto> ''application/json'',
                    ''Authorization'' \<mapsto> ''Bearer t'']\<rparr>]"
proof -
  have m: "jsonMarshal exampleWorld Map.empty = Inr ''{}''"
    by (simp add: exampleWorld_def)
  have r: "newRequestError exampleWorld ''POST''
      (APIEndpoint \<lparr>APIEndpoint = ''http://x'', APIToken = []\<rparr>) = None"
    "newRequestError exampleWorld ''POST''
      (APIEndpoint \<lparr>APIEndpoint = ''http://x'', APIToken = ''t''\<rparr>) = None"
    by (simp_all add: exampleWorld_def)
  from upload_policy[OF example_scan example_scan_parse m r(1)]
       upload_policy[OF example_scan example_scan_parse m r(2)]
  show ?thesis by simp
qed

text \<open>The handler of main.go does not upload on the endpoint alone: with an endpoint and
  no token it logs no upload and sends no request.\<close>

theorem upload_without_token_counterexample:
  "looksLikeMoonScan ''Moon Product''
   \<and> APIEndpoint \<lparr>APIEndpoint = ''http://x'', APIToken = []\<rparr> \<noteq> []
   \<and> LogUploading \<notin> set (fst (handlerMain exampleWorld
        \<lparr>APIEndpoint = ''http://x'', APIToken = []\<rparr> ''Moon Product''))
   \<and> requests (fst (handlerMain exampleWorld
        \<lparr>APIEndpoint = ''http://x'', APIToken = []\<rparr> ''Moon Product'')) = []"
  by (simp add: example_scan example_scan_parse handlerMain_def exampleWorld_def)

end
